theory Spec2Isabelle
  imports Main
begin

section \<open>Strings of the Go standard library\<close>

text \<open>
  A Go string is a sequence of bytes and is modelled as \<^typ>\<open>string\<close>.
  \<^verbatim>\<open>strings.ToLower\<close> belongs to the Go library and folds letter case with the
  Unicode tables; the functions below take it as the parameter \<open>lower\<close>, so that
  every theorem holds for whatever case folding the library performs.
  \<open>asciiLower\<close> is its behaviour on ASCII text (the bytes \<open>A\<close> to \<open>Z\<close> become
  \<open>a\<close> to \<open>z\<close>, every other byte is kept) and is used where a concrete name is
  evaluated.
\<close>

definition asciiLowerChar :: "char \<Rightarrow> char" where
  "asciiLowerChar c =
     (let n = (of_char c :: nat) in if 65 \<le> n \<and> n \<le> 90 then char_of (n + 32) else c)"

definition asciiLower :: "string \<Rightarrow> string" where
  "asciiLower s = map asciiLowerChar s"

text \<open>
  \<^verbatim>\<open>strings.HasPrefix(s, prefix)\<close> is
  \<^verbatim>\<open>len(s) >= len(prefix) && s[0:len(prefix)] == prefix\<close>.
\<close>

definition HasPrefix :: "string \<Rightarrow> string \<Rightarrow> bool" where
  "HasPrefix s pre = (length pre \<le> length s \<and> take (length pre) s = pre)"

text \<open>
  \<^verbatim>\<open>strings.Split(s, sep)\<close> for a separator of one byte (the only call in the
  source passes \<^verbatim>\<open>";"\<close>): the substrings between the separators, in order;
  a string without separator, the empty string too, gives one segment.
  \<open>cur\<close> holds the bytes of the segment being read, last byte first.
\<close>

fun splitFrom :: "char \<Rightarrow> string \<Rightarrow> string \<Rightarrow> string list" where
  "splitFrom sep cur [] = [rev cur]"
| "splitFrom sep cur (c # cs) =
     (if c = sep then rev cur # splitFrom sep [] cs else splitFrom sep (c # cur) cs)"

definition Split :: "string \<Rightarrow> char \<Rightarrow> string list" where
  "Split s sep = splitFrom sep [] s"

section \<open>Paginated retrieval of entities\<close>

text \<open>
  The reply of the entities endpoint as the test of the service synchronizer builds it
  (\<^verbatim>\<open>dynatrace.EntitiesResponse\<close>, \<^verbatim>\<open>dynatrace.Entity\<close>, \<^verbatim>\<open>dynatrace.Tag\<close>).
\<close>

record Tag =
  Context :: string
  Key :: string
  StringRepresentation :: string
  Value :: string

record Entity =
  EntityID :: string
  DisplayName :: string
  Tags :: "Tag list"

record 'a EntitiesResponse =
  TotalCount :: int
  PageSize :: int
  NextPageKey :: string
  Entities :: "'a list"

text \<open>
  The parameters of one request to the list endpoint, named as the mock server of the
  test reads them with \<^verbatim>\<open>request.FormValue\<close>; the time range of the specification
  is \<open>timeFrom\<close> and \<open>timeTo\<close>, the parameter \<^verbatim>\<open>fields\<close> is \<open>fieldsParameter\<close>.
  A parameter that is absent is the empty string, as \<^verbatim>\<open>FormValue\<close> reports it.
\<close>

record Request =
  entitySelector :: string
  timeFrom :: string
  timeTo :: string
  fieldsParameter :: string
  nextPageKey :: string

text \<open>
  The mock of the Dynatrace API in \<^verbatim>\<open>Test_serviceSynchronizer_synchronizeServices\<close>.
  Its state is the captured variable \<^verbatim>\<open>isFirstRequest\<close> and the messages passed to
  \<^verbatim>\<open>t.Errorf\<close>; it answers with the page (status 200) or with status 400.
\<close>

definition firstDTResponse :: "Entity EntitiesResponse" where
  "firstDTResponse =
     \<lparr>TotalCount = 3, PageSize = 2, NextPageKey = ''next-page-key'',
      Entities =
        [\<lparr>EntityID = ''1'', DisplayName = ''name'',
          Tags =
            [\<lparr>Context = ''CONTEXTLESS'', Key = ''keptn_managed'',
              StringRepresentation = ''keptn_managed'', Value = ''''\<rparr>,
             \<lparr>Context = ''CONTEXTLESS'', Key = ''keptn_service'',
              StringRepresentation = ''keptn_service:my-service'', Value = ''my-service''\<rparr>]\<rparr>,
         \<lparr>EntityID = ''1-2'', DisplayName = ''name'',
          Tags =
            [\<lparr>Context = ''CONTEXTLESS'', Key = ''keptn_managed'',
              StringRepresentation = ''keptn_managed'', Value = ''''\<rparr>,
             \<lparr>Context = ''CONTEXTLESS'', Key = ''keptn_service'',
              StringRepresentation = ''keptn_service:my-already-synced-service'',
              Value = ''my-already-synced-service''\<rparr>]\<rparr>]\<rparr>"

definition secondDTResponse :: "Entity EntitiesResponse" where
  "secondDTResponse =
     \<lparr>TotalCount = 2, PageSize = 1, NextPageKey = '''',
      Entities =
        [\<lparr>EntityID = ''2'', DisplayName = ''name'',
          Tags =
            [\<lparr>Context = ''CONTEXTLESS'', Key = ''keptn_managed'',
              StringRepresentation = ''keptn_managed'', Value = ''''\<rparr>,
             \<lparr>Context = ''CONTEXTLESS'', Key = ''keptn_service'',
              StringRepresentation = ''keptn_service:my-service-2'',
              Value = ''my-service-2''\<rparr>]\<rparr>]\<rparr>"

record MockServer =
  isFirstRequest :: bool
  testErrors :: "string list"

definition dtMockServer ::
  "Request \<Rightarrow> MockServer \<Rightarrow> (nat + Entity EntitiesResponse) \<times> MockServer" where
  "dtMockServer request srv =
     (if isFirstRequest srv then
        (if nextPageKey request \<noteq> '''' then
           (Inl 400, srv\<lparr>testErrors := testErrors srv @
              [''call to Dynatrace API received unexpected nextPageKey parameter'']\<rparr>)
         else (Inr firstDTResponse, srv\<lparr>isFirstRequest := False\<rparr>))
      else if nextPageKey request \<noteq> NextPageKey firstDTResponse then
        (Inl 400, srv\<lparr>testErrors := testErrors srv @
           [''call to Dynatrace API received unexpected nextPageKey parameter '' @
            nextPageKey request @ ''. Expected '' @ NextPageKey firstDTResponse]\<rparr>)
      else if entitySelector request \<noteq> '''' then
        (Inl 400, srv\<lparr>testErrors := testErrors srv @
           [''entitySelector parameter must not be used in combination with nextPageKey'']\<rparr>)
      else if fieldsParameter request \<noteq> '''' then
        (Inl 400, srv\<lparr>testErrors := testErrors srv @
           [''fields parameter must not be used in combination with nextPageKey'']\<rparr>)
      else (Inr secondDTResponse, srv))"

text \<open>
  Modelled from the spec: the paginating client (\<^verbatim>\<open>dynatrace.EntitiesClient\<close>, called
  by \<^verbatim>\<open>synchronizeServices\<close>) is not among the sources; only its test is. The
  definitions below follow section 4.6 of the specification. The first call carries the
  full selector parameters (entity selector, time range, field list) and an empty cursor.
\<close>

definition firstPageRequest :: "string \<Rightarrow> string \<Rightarrow> string \<Rightarrow> string \<Rightarrow> Request" where
  "firstPageRequest selector tFrom tTo fieldList =
     \<lparr>entitySelector = selector, timeFrom = tFrom, timeTo = tTo, fieldsParameter = fieldList,
      nextPageKey = ''''\<rparr>"

text \<open>
  Modelled from the spec: a call after the first page uses only the cursor; selector,
  time range and field list are left out by construction.
\<close>

definition nextPageRequest :: "string \<Rightarrow> Request" where
  "nextPageRequest cursor =
     \<lparr>entitySelector = '''', timeFrom = '''', timeTo = '''', fieldsParameter = '''',
      nextPageKey = cursor\<rparr>"

text \<open>
  Modelled from the spec: the error kinds of section 7 that the accumulation can end in.
\<close>

datatype 'e PaginationError = BackendQueryError 'e | PaginationProtocolError

text \<open>
  Modelled from the spec: the entities retrieved must be exactly as many as the first
  page's \<^verbatim>\<open>TotalCount\<close>; otherwise the accumulation is incomplete and is an error.
\<close>

definition reconcile :: "int \<Rightarrow> 'a list \<Rightarrow> 'e PaginationError + 'a list" where
  "reconcile totalCount entities =
     (if int (length entities) = totalCount then Inr entities else Inl PaginationProtocolError)"

text \<open>
  Modelled from the spec: the caller accumulates the entities across pages, in page
  order, until \<^verbatim>\<open>nextPageKey\<close> is empty. \<open>cursor\<close> is the key of the page read last,
  \<open>acc\<close> the entities so far, \<open>sent\<close> the requests issued so far, \<open>srv\<close> the state
  of the backend. A backend can hand out cursors for ever, so the loop is bounded by
  \<open>fuel\<close>, the number of requests it may still issue, and returns \<open>None\<close> when the
  fuel is used up before the last page.
\<close>

fun followCursor ::
  "nat \<Rightarrow> (Request \<Rightarrow> 's \<Rightarrow> ('e + 'a EntitiesResponse) \<times> 's) \<Rightarrow> int \<Rightarrow> string \<Rightarrow> 'a list \<Rightarrow>
   Request list \<Rightarrow> 's \<Rightarrow> ('e PaginationError + 'a list) option \<times> Request list \<times> 's" where
  "followCursor fuel backend totalCount cursor acc sent srv =
     (if cursor = '''' then (Some (reconcile totalCount acc), sent, srv)
      else (case fuel of
              0 \<Rightarrow> (None, sent, srv)
            | Suc n \<Rightarrow>
                (case backend (nextPageRequest cursor) srv of
                   (Inl err, srv') \<Rightarrow>
                     (Some (Inl (BackendQueryError err)), sent @ [nextPageRequest cursor], srv')
                 | (Inr page, srv') \<Rightarrow>
                     followCursor n backend totalCount (NextPageKey page) (acc @ Entities page)
                       (sent @ [nextPageRequest cursor]) srv')))"

definition listAllEntities ::
  "nat \<Rightarrow> (Request \<Rightarrow> 's \<Rightarrow> ('e + 'a EntitiesResponse) \<times> 's) \<Rightarrow> string \<Rightarrow> string \<Rightarrow> string \<Rightarrow>
   string \<Rightarrow> 's \<Rightarrow> ('e PaginationError + 'a list) option \<times> Request list \<times> 's" where
  "listAllEntities fuel backend selector tFrom tTo fieldList srv =
     (case fuel of
        0 \<Rightarrow> (None, [], srv)
      | Suc n \<Rightarrow>
          (case backend (firstPageRequest selector tFrom tTo fieldList) srv of
             (Inl err, srv') \<Rightarrow>
               (Some (Inl (BackendQueryError err)),
                [firstPageRequest selector tFrom tTo fieldList], srv')
           | (Inr page, srv') \<Rightarrow>
               followCursor n backend (TotalCount page) (NextPageKey page) (Entities page)
                 [firstPageRequest selector tFrom tTo fieldList] srv'))"

text \<open>
  The protocol of section 4.6 of the specification as a property of the requests that
  were issued, replayed against the backend. For the requests after the first page:
  \<open>cursor\<close> is the \<^verbatim>\<open>nextPageKey\<close> of the page before; a request is only issued
  while that key is not empty, it carries that key and none of the selector, time range
  and field parameters, and the request after it is judged by the page it gets.
\<close>

fun cursorRequestsOnly ::
  "(Request \<Rightarrow> 's \<Rightarrow> ('e + 'a EntitiesResponse) \<times> 's) \<Rightarrow> string \<Rightarrow> Request list \<Rightarrow> 's \<Rightarrow> bool" where
  "cursorRequestsOnly backend cursor [] srv = True"
| "cursorRequestsOnly backend cursor (request # later) srv =
     (cursor \<noteq> '''' \<and> nextPageKey request = cursor \<and>
      entitySelector request = '''' \<and> timeFrom request = '''' \<and> timeTo request = '''' \<and>
      fieldsParameter request = '''' \<and>
      (case backend request srv of
         (Inl err, srv') \<Rightarrow> later = []
       | (Inr page, srv') \<Rightarrow> cursorRequestsOnly backend (NextPageKey page) later srv'))"

text \<open>
  For all requests of one accumulation: the first one carries the full selector, time
  range and field parameters and an empty cursor, the ones after it are as above.
\<close>

definition followsProtocol ::
  "(Request \<Rightarrow> 's \<Rightarrow> ('e + 'a EntitiesResponse) \<times> 's) \<Rightarrow> string \<Rightarrow> string \<Rightarrow> string \<Rightarrow>
   string \<Rightarrow> Request list \<Rightarrow> 's \<Rightarrow> bool" where
  "followsProtocol backend selector tFrom tTo fieldList sent srv =
     (case sent of
        [] \<Rightarrow> True
      | first # later \<Rightarrow>
          entitySelector first = selector \<and> timeFrom first = tFrom \<and> timeTo first = tTo \<and>
          fieldsParameter first = fieldList \<and> nextPageKey first = '''' \<and>
          (case backend first srv of
             (Inl err, srv') \<Rightarrow> later = []
           | (Inr page, srv') \<Rightarrow> cursorRequestsOnly backend (NextPageKey page) later srv'))"

text \<open>The mock server of the test before its first request.\<close>

definition freshMockServer :: MockServer where
  "freshMockServer = \<lparr>isFirstRequest = True, testErrors = []\<rparr>"

section \<open>Processing of a security-problem tile\<close>

text \<open>
  The fields of \<^verbatim>\<open>dynatrace.Tile\<close> that matter here: its display name (which may
  carry a threshold specification) and its tile filter with the management zone, the one
  field that \<^verbatim>\<open>Process\<close> reads. The type of the management zone entry is a parameter.
\<close>

record 'mz TileFilter =
  ManagementZone :: 'mz

record 'mz Tile =
  Name :: string
  TileFilter :: "'mz TileFilter"

text \<open>
  The reply of the security-problems query; \<^verbatim>\<open>Process\<close> reads its
  \<^verbatim>\<open>TotalCount\<close>, a Go \<^verbatim>\<open>int\<close>.
\<close>

record SecurityProblemQueryResult =
  TotalCount :: int

text \<open>
  \<^verbatim>\<open>keptnv2.SLIResult\<close> with the fields the processor sets; \<open>'v\<close> stands for
  \<^verbatim>\<open>float64\<close>.
\<close>

record 'v SLIResult =
  Metric :: string
  Value :: 'v
  Success :: bool

text \<open>\<^verbatim>\<open>TileResult\<close>; \<open>'slo\<close> stands for the SLO definition \<^verbatim>\<open>*keptncommon.SLO\<close>.\<close>

record ('v, 'slo) TileResult =
  sliResult :: "'v SLIResult"
  objective :: 'slo
  sliName :: string
  sliQuery :: string

text \<open>
  \<^verbatim>\<open>SecurityProblemTileProcessing\<close>. The field \<open>client\<close> stands for what
  \<^verbatim>\<open>dynatrace.NewSecurityProblemsClient(p.client).GetByQuery\<close> does with it: a call
  to the backend, which takes the query and the time frame, reads and changes the state
  \<open>'w\<close> of the world and returns an error or a reply (never neither).
\<close>

record ('t, 'e, 'w) SecurityProblemTileProcessing =
  client :: "string \<Rightarrow> 't \<Rightarrow> 't \<Rightarrow> 'w \<Rightarrow> ('e + SecurityProblemQueryResult) \<times> 'w"
  startUnix :: 't
  endUnix :: 't

text \<open>
  The helpers of other packages that the processor calls and that are not among the
  sources, as parameters: the constructor of the management zone filter and its rendering
  for a problem selector, the conversion of a Go \<^verbatim>\<open>int\<close> to \<^verbatim>\<open>float64\<close>, and
  the parser \<^verbatim>\<open>common.ParsePassAndWarningWithoutDefaultsFrom\<close>.
\<close>

record ('df, 'mz, 'f, 'v, 'slo) Helpers =
  NewManagementZoneFilter :: "'df \<Rightarrow> 'mz \<Rightarrow> 'f"
  ForProblemSelector :: "'f \<Rightarrow> string"
  float64 :: "int \<Rightarrow> 'v"
  ParsePassAndWarningWithoutDefaultsFrom :: "string \<Rightarrow> 'slo"

text \<open>
  \<^verbatim>\<open>processProblemSelector\<close>: \<^verbatim>\<open>fmt.Sprintf\<close> with \<^verbatim>\<open>%s\<close> is concatenation.
  The result is the pair of \<^verbatim>\<open>(*TileResult, error)\<close> as a sum, with the state of the
  world after the call. The debug log entry is left out.
\<close>

definition processProblemSelector ::
  "('df, 'mz, 'f, 'v, 'slo) Helpers \<Rightarrow> ('t, 'e, 'w) SecurityProblemTileProcessing \<Rightarrow> string \<Rightarrow>
   't \<Rightarrow> 't \<Rightarrow> 'w \<Rightarrow> ('e + ('v, 'slo) TileResult) \<times> 'w" where
  "processProblemSelector h p securityProblemSelector startU endU w =
     (let problemQuery =
            (if securityProblemSelector \<noteq> ''''
             then ''securityProblemSelector='' @ securityProblemSelector else '''')
      in case client p problemQuery startU endU w of
           (Inl err, w') \<Rightarrow> (Inl err, w')
         | (Inr problemQueryResult, w') \<Rightarrow>
             (let indicatorName = ''security_problems'';
                  val = float64 h (TotalCount problemQueryResult);
                  sliRes = \<lparr>Metric = indicatorName, Value = val, Success = True\<rparr>;
                  sliQ = ''SECPV2;'' @ problemQuery;
                  sloString = ''sli='' @ indicatorName @ '';pass=<=0;key=true'';
                  sloDefinition = ParsePassAndWarningWithoutDefaultsFrom h sloString
              in (Inr \<lparr>sliResult = sliRes, objective = sloDefinition,
                       sliName = indicatorName, sliQuery = sliQ\<rparr>, w')))"

text \<open>
  \<^verbatim>\<open>Process\<close>: the result is \<^verbatim>\<open>*TileResult\<close>, \<open>None\<close> for \<^verbatim>\<open>nil\<close>; the error
  of the backend is logged and dropped.
\<close>

definition Process ::
  "('df, 'mz, 'f, 'v, 'slo) Helpers \<Rightarrow> ('t, 'e, 'w) SecurityProblemTileProcessing \<Rightarrow> 'mz Tile \<Rightarrow>
   'df \<Rightarrow> 'w \<Rightarrow> ('v, 'slo) TileResult option \<times> 'w" where
  "Process h p tile dashboardFilter w =
     (let tileManagementZoneFilter =
            NewManagementZoneFilter h dashboardFilter (ManagementZone (TileFilter tile));
          problemSelector = ''status(OPEN)'' @ ForProblemSelector h tileManagementZoneFilter
      in case processProblemSelector h p problemSelector (startUnix p) (endUnix p) w of
           (Inl err, w') \<Rightarrow> (None, w')
         | (Inr tileResult, w') \<Rightarrow> (Some tileResult, w'))"

text \<open>
  Modelled from the spec: the loop of the tile dispatcher (section 4.2), which is not
  among the sources, over security-problem tiles only. The tiles are processed in
  document order; a tile whose processing fails is left out of the report and the loop
  goes on with the next tile.
\<close>

fun processTiles ::
  "('df, 'mz, 'f, 'v, 'slo) Helpers \<Rightarrow> ('t, 'e, 'w) SecurityProblemTileProcessing \<Rightarrow>
   'mz Tile list \<Rightarrow> 'df \<Rightarrow> 'w \<Rightarrow> ('v, 'slo) TileResult list \<times> 'w" where
  "processTiles h p [] dashboardFilter w = ([], w)"
| "processTiles h p (tile # tiles) dashboardFilter w =
     (case Process h p tile dashboardFilter w of
        (None, w') \<Rightarrow> processTiles h p tiles dashboardFilter w'
      | (Some tileResult, w') \<Rightarrow>
          (case processTiles h p tiles dashboardFilter w' of
             (results, w'') \<Rightarrow> (tileResult # results, w'')))"

text \<open>
  Sample values on which the processor is evaluated below. The helpers: a tile's own
  management zone, when it has one, replaces the one of the dashboard; the filter renders
  as \<^verbatim>\<open>,managementZoneIds(<zone>)\<close>, an empty one as the empty string; the count is
  kept as an integer; the threshold string is kept as it is. The backend answers the
  one query of the zone \<^verbatim>\<open>7\<close> with two open problems and fails on any other query;
  its state counts the calls.
\<close>

definition sampleHelpers :: "(string, string, string, int, string) Helpers" where
  "sampleHelpers =
     \<lparr>NewManagementZoneFilter = (\<lambda>dashboardZone tileZone.
        if tileZone \<noteq> '''' then tileZone else dashboardZone),
      ForProblemSelector = (\<lambda>zone.
        if zone = '''' then '''' else '',managementZoneIds('' @ zone @ '')''),
      float64 = (\<lambda>n. n),
      ParsePassAndWarningWithoutDefaultsFrom = (\<lambda>s. s)\<rparr>"

definition sampleProcessing :: "(nat, string, nat) SecurityProblemTileProcessing" where
  "sampleProcessing =
     \<lparr>client = (\<lambda>query tStart tEnd calls.
        (if query = ''securityProblemSelector=status(OPEN),managementZoneIds(7)''
         then Inr \<lparr>TotalCount = 2\<rparr> else Inl ''HTTP 500'', Suc calls)),
      startUnix = 100,
      endUnix = 200\<rparr>"

definition sampleTile :: "string \<Rightarrow> string Tile" where
  "sampleTile zone = \<lparr>Name = ''Security problems'', TileFilter = \<lparr>ManagementZone = zone\<rparr>\<rparr>"

section \<open>Locating the dashboard by its name\<close>

text \<open>\<^verbatim>\<open>DashboardEntry\<close>, the element of the \<^verbatim>\<open>/dashboards\<close> reply.\<close>

record DashboardEntry =
  ID :: string
  Name :: string
  Owner :: string

text \<open>\<^verbatim>\<open>Dashboards\<close> and \<^verbatim>\<open>DynatraceDashboards\<close>: both hold one slice of entries.\<close>

record Dashboards =
  Dashboards :: "DashboardEntry list"

text \<open>
  The fields of \<^verbatim>\<open>common.BaseKeptnEvent\<close> that the locator of
  \<^verbatim>\<open>DynatraceDashboards\<close> reads.
\<close>

record BaseKeptnEvent =
  Project :: string
  Stage :: string
  Service :: string

text \<open>
  The innermost loop of \<^verbatim>\<open>SearchForDashboardMatching\<close>: it walks over all segments
  of the name and sets \<^verbatim>\<open>foundValue\<close> when \<^verbatim>\<open>strings.Compare\<close> of the wanted pair
  and the lower-cased segment is 0. The flag is the last argument.
\<close>

fun findInNameSplits :: "(string \<Rightarrow> string) \<Rightarrow> string \<Rightarrow> string list \<Rightarrow> bool \<Rightarrow> bool" where
  "findInNameSplits lower findValue [] foundValue = foundValue"
| "findInNameSplits lower findValue (nameSplitValue # rest) foundValue =
     findInNameSplits lower findValue rest
       (if findValue = lower nameSplitValue then True else foundValue)"

text \<open>
  The loop over the three wanted pairs: \<^verbatim>\<open>dashboardMatch\<close> starts as true and is
  cleared by every pair that was not found (the \<^verbatim>\<open>continue\<close> ends the iteration,
  not the loop).
\<close>

fun matchKeyValuePairs :: "(string \<Rightarrow> string) \<Rightarrow> string list \<Rightarrow> string list \<Rightarrow> bool \<Rightarrow> bool" where
  "matchKeyValuePairs lower [] nameSplits dashboardMatch = dashboardMatch"
| "matchKeyValuePairs lower (findValue # rest) nameSplits dashboardMatch =
     matchKeyValuePairs lower rest nameSplits
       (if findInNameSplits lower findValue nameSplits False = False then False
        else dashboardMatch)"

text \<open>
  The loop over the dashboards, with its early \<^verbatim>\<open>return dashboard.ID\<close>; after the
  loop the function logs a warning and returns the empty string. The two copies of the
  function in the source have this loop word for word in common.
\<close>

fun searchDashboards :: "(string \<Rightarrow> string) \<Rightarrow> string list \<Rightarrow> DashboardEntry list \<Rightarrow> string" where
  "searchDashboards lower keyValuePairs [] = ''''"
| "searchDashboards lower keyValuePairs (dashboard # rest) =
     (if HasPrefix (lower (Name dashboard)) ''kqg;''
      then (let nameSplits = Split (Name dashboard) (CHR '';'')
            in if matchKeyValuePairs lower keyValuePairs nameSplits True then ID dashboard
               else searchDashboards lower keyValuePairs rest)
      else searchDashboards lower keyValuePairs rest)"

text \<open>\<^verbatim>\<open>Dashboards.SearchForDashboardMatching(project, stage, service)\<close>.\<close>

definition SearchForDashboardMatching ::
  "(string \<Rightarrow> string) \<Rightarrow> Dashboards \<Rightarrow> string \<Rightarrow> string \<Rightarrow> string \<Rightarrow> string" where
  "SearchForDashboardMatching lower dashboards project stage service =
     (let keyValuePairs =
            [lower (''project='' @ project),
             lower (''stage='' @ stage),
             lower (''service='' @ service)]
      in searchDashboards lower keyValuePairs (Dashboards dashboards))"

text \<open>
  \<^verbatim>\<open>DynatraceDashboards.SearchForDashboardMatching(keptnEvent)\<close>, the copy that
  takes the triple from the event and lists the pairs in the order project, service,
  stage.
\<close>

definition SearchForDashboardMatchingEvent ::
  "(string \<Rightarrow> string) \<Rightarrow> Dashboards \<Rightarrow> BaseKeptnEvent \<Rightarrow> string" where
  "SearchForDashboardMatchingEvent lower dashboards keptnEvent =
     (let keyValuePairs =
            [lower (''project='' @ Project keptnEvent),
             lower (''service='' @ Service keptnEvent),
             lower (''stage='' @ Stage keptnEvent)]
      in searchDashboards lower keyValuePairs (Dashboards dashboards))"

text \<open>
  The naming convention in the words of the specification: the name starts, letter case
  aside, with the marker \<^verbatim>\<open>kqg;\<close>, and among its semicolon-separated segments there
  are, letter case aside, the pairs \<^verbatim>\<open>project=<project>\<close>,
  \<^verbatim>\<open>service=<service>\<close> and \<^verbatim>\<open>stage=<stage>\<close>.
\<close>

definition hasPair :: "(string \<Rightarrow> string) \<Rightarrow> string \<Rightarrow> string \<Rightarrow> string \<Rightarrow> bool" where
  "hasPair lower name key val =
     (\<exists>segment \<in> set (Split name (CHR '';'')). lower segment = lower (key @ ''='' @ val))"

definition matchesConvention ::
  "(string \<Rightarrow> string) \<Rightarrow> string \<Rightarrow> string \<Rightarrow> string \<Rightarrow> string \<Rightarrow> bool" where
  "matchesConvention lower name project service stage =
     (HasPrefix (lower name) ''kqg;'' \<and>
      hasPair lower name ''project'' project \<and>
      hasPair lower name ''service'' service \<and>
      hasPair lower name ''stage'' stage)"

section \<open>Resources of the configuration service\<close>

text \<open>
  \<^verbatim>\<open>ResourceError\<close>: the fields \<^verbatim>\<open>uri\<close>, \<^verbatim>\<open>project\<close>, \<^verbatim>\<open>stage\<close> and
  \<^verbatim>\<open>service\<close>, in this order; a field that a struct literal of the source leaves out
  is the empty string.
\<close>

datatype ResourceError = ResourceError string string string string

text \<open>
  The errors that the resource handler of the Keptn library (\<^verbatim>\<open>api.ResourceHandler\<close>)
  returns: its sentinel \<^verbatim>\<open>api.ResourceNotFoundError\<close>, or any other error, given by
  its message \<^verbatim>\<open>err.Error()\<close>.
\<close>

datatype apiError = ApiResourceNotFoundError | ApiError string

text \<open>
  The values of the Go interface \<^verbatim>\<open>error\<close> that occur here: an error of the
  library, or one of the three error types of this package that the client returns.
\<close>

datatype error =
    Api apiError
  | ResourceNotFoundError ResourceError
  | ResourceEmptyError ResourceError
  | ResourceRetrievalFailedError ResourceError string

text \<open>\<^verbatim>\<open>keptnmodels.Resource\<close>: the content is the one field read.\<close>

record Resource =
  ResourceContent :: string

text \<open>
  The three calls of \<^verbatim>\<open>api.ResourceHandler\<close> that the client uses. Each one is a
  request to the configuration service: it reads and changes the state \<open>'w\<close> of the
  world and returns an error or a resource (never neither).
\<close>

record 'w ResourceHandler =
  handlerGetServiceResource ::
    "string \<Rightarrow> string \<Rightarrow> string \<Rightarrow> string \<Rightarrow> 'w \<Rightarrow> (apiError + Resource) \<times> 'w"
  handlerGetStageResource ::
    "string \<Rightarrow> string \<Rightarrow> string \<Rightarrow> 'w \<Rightarrow> (apiError + Resource) \<times> 'w"
  handlerGetProjectResource ::
    "string \<Rightarrow> string \<Rightarrow> 'w \<Rightarrow> (apiError + Resource) \<times> 'w"

record 'w ConfigResourceClient =
  handler :: "'w ResourceHandler"

text \<open>
  \<^verbatim>\<open>getResourceByFunc\<close>: the pair \<^verbatim>\<open>(string, error)\<close> is a sum, with the state of
  the world after the call of \<^verbatim>\<open>resFunc\<close>.
\<close>

definition getResourceByFunc ::
  "('w \<Rightarrow> (apiError + Resource) \<times> 'w) \<Rightarrow> (unit \<Rightarrow> error) \<Rightarrow> (string \<Rightarrow> error) \<Rightarrow>
   (unit \<Rightarrow> error) \<Rightarrow> 'w \<Rightarrow> (error + string) \<times> 'w" where
  "getResourceByFunc resFunc rnfErrFunc rrfErrFunc reErrFunc w =
     (case resFunc w of
        (Inl err, w') \<Rightarrow>
          (case err of
             ApiResourceNotFoundError \<Rightarrow> (Inl (rnfErrFunc ()), w')
           | ApiError msg \<Rightarrow> (Inl (rrfErrFunc msg), w'))
      | (Inr resource, w') \<Rightarrow>
          (if ResourceContent resource = '''' then (Inl (reErrFunc ()), w')
           else (Inr (ResourceContent resource), w')))"

definition GetServiceResource ::
  "'w ConfigResourceClient \<Rightarrow> string \<Rightarrow> string \<Rightarrow> string \<Rightarrow> string \<Rightarrow> 'w \<Rightarrow>
   (error + string) \<times> 'w" where
  "GetServiceResource rc project stage service resourceURI =
     getResourceByFunc
       (handlerGetServiceResource (handler rc) project stage service resourceURI)
       (\<lambda>_. ResourceNotFoundError (ResourceError resourceURI project stage service))
       (\<lambda>msg. ResourceRetrievalFailedError
                 (ResourceError resourceURI project stage service) msg)
       (\<lambda>_. ResourceEmptyError (ResourceError resourceURI project stage service))"

definition GetStageResource ::
  "'w ConfigResourceClient \<Rightarrow> string \<Rightarrow> string \<Rightarrow> string \<Rightarrow> 'w \<Rightarrow> (error + string) \<times> 'w" where
  "GetStageResource rc project stage resourceURI =
     getResourceByFunc
       (handlerGetStageResource (handler rc) project stage resourceURI)
       (\<lambda>_. ResourceNotFoundError (ResourceError resourceURI project stage ''''))
       (\<lambda>msg. ResourceRetrievalFailedError (ResourceError resourceURI project stage '''') msg)
       (\<lambda>_. ResourceEmptyError (ResourceError resourceURI project stage ''''))"

definition GetProjectResource ::
  "'w ConfigResourceClient \<Rightarrow> string \<Rightarrow> string \<Rightarrow> 'w \<Rightarrow> (error + string) \<times> 'w" where
  "GetProjectResource rc project resourceURI =
     getResourceByFunc
       (handlerGetProjectResource (handler rc) project resourceURI)
       (\<lambda>_. ResourceNotFoundError (ResourceError resourceURI project '''' ''''))
       (\<lambda>msg. ResourceRetrievalFailedError (ResourceError resourceURI project '''' '''') msg)
       (\<lambda>_. ResourceEmptyError (ResourceError resourceURI project '''' ''''))"

text \<open>
  \<^verbatim>\<open>errors.As(err, &rnfErrorType)\<close> with a target of type
  \<^verbatim>\<open>*ResourceNotFoundError\<close>: none of the errors above wraps another one, so it holds
  for the errors of that type and for no other.
\<close>

fun errorsAsResourceNotFound :: "error \<Rightarrow> bool" where
  "errorsAsResourceNotFound (ResourceNotFoundError e) = True"
| "errorsAsResourceNotFound err = False"

text \<open>
  The three blocks of \<^verbatim>\<open>GetResource\<close>. Each one gives \<open>Some\<close> of what the function
  returns from inside the block, or \<open>None\<close> when control leaves the block and goes on
  (the level does not apply, or the branch that only logs was taken). The first two
  blocks test the error with \<^verbatim>\<open>errors.As\<close>, the third one compares it with
  \<^verbatim>\<open>api.ResourceNotFoundError\<close>.
\<close>

definition serviceLevel ::
  "'w ConfigResourceClient \<Rightarrow> string \<Rightarrow> string \<Rightarrow> string \<Rightarrow> string \<Rightarrow> 'w \<Rightarrow>
   (error + string) option \<times> 'w" where
  "serviceLevel rc project stage service resourceURI w =
     (if project \<noteq> '''' \<and> stage \<noteq> '''' \<and> service \<noteq> '''' then
        (case GetServiceResource rc project stage service resourceURI w of
           (Inl err, w') \<Rightarrow>
             (if errorsAsResourceNotFound err then (None, w') else (Some (Inl err), w'))
         | (Inr keptnResourceContent, w') \<Rightarrow> (Some (Inr keptnResourceContent), w'))
      else (None, w))"

definition stageLevel ::
  "'w ConfigResourceClient \<Rightarrow> string \<Rightarrow> string \<Rightarrow> string \<Rightarrow> 'w \<Rightarrow>
   (error + string) option \<times> 'w" where
  "stageLevel rc project stage resourceURI w =
     (if project \<noteq> '''' \<and> stage \<noteq> '''' then
        (case GetStageResource rc project stage resourceURI w of
           (Inl err, w') \<Rightarrow>
             (if errorsAsResourceNotFound err then (None, w') else (Some (Inl err), w'))
         | (Inr keptnResourceContent, w') \<Rightarrow> (Some (Inr keptnResourceContent), w'))
      else (None, w))"

definition projectLevel ::
  "'w ConfigResourceClient \<Rightarrow> string \<Rightarrow> string \<Rightarrow> 'w \<Rightarrow> (error + string) option \<times> 'w" where
  "projectLevel rc project resourceURI w =
     (if project \<noteq> '''' then
        (case GetProjectResource rc project resourceURI w of
           (Inl err, w') \<Rightarrow>
             (if err = Api ApiResourceNotFoundError then (None, w') else (Some (Inl err), w'))
         | (Inr keptnResourceContent, w') \<Rightarrow> (Some (Inr keptnResourceContent), w'))
      else (None, w))"

text \<open>
  \<^verbatim>\<open>ConfigResourceClient.GetResource\<close>: the three blocks in the order of the source,
  and after them the \<^verbatim>\<open>ResourceNotFoundError\<close> with all four fields. The log entries
  are left out.
\<close>

definition GetResource ::
  "'w ConfigResourceClient \<Rightarrow> string \<Rightarrow> string \<Rightarrow> string \<Rightarrow> string \<Rightarrow> 'w \<Rightarrow>
   (error + string) \<times> 'w" where
  "GetResource rc project stage service resourceURI w =
     (case serviceLevel rc project stage service resourceURI w of
        (Some returned, w1) \<Rightarrow> (returned, w1)
      | (None, w1) \<Rightarrow>
          (case stageLevel rc project stage resourceURI w1 of
             (Some returned, w2) \<Rightarrow> (returned, w2)
           | (None, w2) \<Rightarrow>
               (case projectLevel rc project resourceURI w2 of
                  (Some returned, w3) \<Rightarrow> (returned, w3)
                | (None, w3) \<Rightarrow>
                    (Inl (ResourceNotFoundError
                            (ResourceError resourceURI project stage service)), w3))))"

text \<open>
  The chain of responsibility in the words of the specification: the levels are asked
  in order, each one reports content, a typed not-found outcome or another error; the
  chain goes on to the next level on not-found, stops at the first other outcome, and
  ends in \<open>notFound\<close> when no level is left.
\<close>

fun chainOfResponsibility ::
  "('w \<Rightarrow> (error + string) \<times> 'w) list \<Rightarrow> error \<Rightarrow> 'w \<Rightarrow> (error + string) \<times> 'w" where
  "chainOfResponsibility [] notFound w = (Inl notFound, w)"
| "chainOfResponsibility (level # levels) notFound w =
     (case level w of
        (Inl err, w') \<Rightarrow>
          (if errorsAsResourceNotFound err then chainOfResponsibility levels notFound w' else (Inl err, w'))
      | (Inr content, w') \<Rightarrow> (Inr content, w'))"

text \<open>
  The levels that apply to a request: the service level needs project, stage and service,
  the stage level project and stage, the project level the project.
\<close>

definition applicableLevels ::
  "'w ConfigResourceClient \<Rightarrow> string \<Rightarrow> string \<Rightarrow> string \<Rightarrow> string \<Rightarrow>
   ('w \<Rightarrow> (error + string) \<times> 'w) list" where
  "applicableLevels rc project stage service resourceURI =
     (if project \<noteq> '''' \<and> stage \<noteq> '''' \<and> service \<noteq> ''''
      then [GetServiceResource rc project stage service resourceURI] else []) @
     (if project \<noteq> '''' \<and> stage \<noteq> ''''
      then [GetStageResource rc project stage resourceURI] else []) @
     (if project \<noteq> '''' then [GetProjectResource rc project resourceURI] else [])"

text \<open>
  Whether the levels of a chain, asked in order, all report not-found.
\<close>

fun allNotFound :: "('w \<Rightarrow> (error + string) \<times> 'w) list \<Rightarrow> 'w \<Rightarrow> bool" where
  "allNotFound [] w = True"
| "allNotFound (level # levels) w =
     (case level w of
        (Inl err, w') \<Rightarrow> errorsAsResourceNotFound err \<and> allNotFound levels w'
      | (Inr content, w') \<Rightarrow> False)"

text \<open>
  A sample client on which \<^verbatim>\<open>GetResource\<close> is evaluated below: each level of the
  handler gives a fixed answer, and the state of the world is the list of the levels
  that were asked, in the order of the calls.
\<close>

definition sampleResourceClient ::
  "apiError + Resource \<Rightarrow> apiError + Resource \<Rightarrow> apiError + Resource \<Rightarrow>
   string list ConfigResourceClient" where
  "sampleResourceClient atService atStage atProject =
     \<lparr>handler =
        \<lparr>handlerGetServiceResource =
           (\<lambda>project stage service resourceURI asked. (atService, asked @ [''service''])),
         handlerGetStageResource =
           (\<lambda>project stage resourceURI asked. (atStage, asked @ [''stage''])),
         handlerGetProjectResource =
           (\<lambda>project resourceURI asked. (atProject, asked @ [''project'']))\<rparr>\<rparr>"

section \<open>Properties of the dashboard locator\<close>

lemma findInNameSplits_iff:
  "findInNameSplits lower findValue nameSplits foundValue =
     (foundValue \<or> (\<exists>v \<in> set nameSplits. lower v = findValue))"
  by (induction nameSplits arbitrary: foundValue) auto

lemma matchKeyValuePairs_iff:
  "matchKeyValuePairs lower keyValuePairs nameSplits dashboardMatch =
     (dashboardMatch \<and> (\<forall>p \<in> set keyValuePairs. \<exists>v \<in> set nameSplits. lower v = p))"
  by (induction keyValuePairs arbitrary: dashboardMatch) (auto simp: findInNameSplits_iff)

lemma searchDashboards_find:
  assumes "\<And>d. P d = (HasPrefix (lower (Name d)) ''kqg;'' \<and>
                    (\<forall>p \<in> set keyValuePairs. \<exists>v \<in> set (Split (Name d) (CHR '';'')). lower v = p))"
  shows "searchDashboards lower keyValuePairs dashboards =
     (case find P dashboards of None \<Rightarrow> '''' | Some d \<Rightarrow> ID d)"
  by (induction dashboards) (auto simp add: assms matchKeyValuePairs_iff Let_def)

lemma SearchForDashboardMatching_find:
  "SearchForDashboardMatching lower dashboards project stage service =
     (case find (\<lambda>d. matchesConvention lower (Name d) project service stage)
             (Dashboards dashboards) of
        None \<Rightarrow> '''' | Some d \<Rightarrow> ID d)"
  unfolding SearchForDashboardMatching_def Let_def
  by (rule searchDashboards_find) (auto simp add: matchesConvention_def hasPair_def)

lemma SearchForDashboardMatchingEvent_find:
  "SearchForDashboardMatchingEvent lower dashboards keptnEvent =
     (case find (\<lambda>d. matchesConvention lower (Name d) (Project keptnEvent)
                       (Service keptnEvent) (Stage keptnEvent))
             (Dashboards dashboards) of
        None \<Rightarrow> '''' | Some d \<Rightarrow> ID d)"
  unfolding SearchForDashboardMatchingEvent_def Let_def
  by (rule searchDashboards_find) (auto simp add: matchesConvention_def hasPair_def)

lemma find_filter_same:
  "find P (filter P xs) = find P xs"
  by (induction xs) auto

lemma find_first_match:
  "\<forall>x \<in> set xs. \<not> P x \<Longrightarrow> P y \<Longrightarrow> find P (xs @ y # ys) = Some y"
  by (induction xs) auto

text \<open>
  C1. Whatever identifier the locator returns as a match (a non-empty result, from either
  copy of the function) is the identifier of a dashboard of the list whose name starts,
  letter case aside, with \<^verbatim>\<open>kqg;\<close> and has the three pairs for project, service and
  stage among its segments, in any order and whatever other segments there are. A
  dashboard whose name lacks the marker or one of the pairs is never the one returned:
  dropping all such dashboards from the list does not change the result.
\<close>

theorem SearchForDashboardMatching_only_matching:
  assumes "dashboardID \<noteq> ''''"
    and "SearchForDashboardMatching lower dashboards project stage service = dashboardID \<or>
         SearchForDashboardMatchingEvent lower dashboards
           \<lparr>Project = project, Stage = stage, Service = service\<rparr> = dashboardID"
  shows "(\<exists>d \<in> set (Dashboards dashboards).
            ID d = dashboardID \<and> matchesConvention lower (Name d) project service stage) \<and>
         SearchForDashboardMatching lower
           \<lparr>Dashboards = filter (\<lambda>d. matchesConvention lower (Name d) project service stage)
                           (Dashboards dashboards)\<rparr> project stage service =
         SearchForDashboardMatching lower dashboards project stage service"
proof -
  let ?P = "\<lambda>d. matchesConvention lower (Name d) project service stage"
  from assms(2)
  have r: "(case find ?P (Dashboards dashboards) of None \<Rightarrow> '''' | Some d \<Rightarrow> ID d) = dashboardID"
    by (auto simp add: SearchForDashboardMatching_find SearchForDashboardMatchingEvent_find)
  with assms(1) obtain d where d: "find ?P (Dashboards dashboards) = Some d" "ID d = dashboardID"
    by (cases "find ?P (Dashboards dashboards)") auto
  from d(1) have "d \<in> set (Dashboards dashboards)" "?P d"
    by (auto simp add: find_Some_iff)
  with d(2) have ex: "\<exists>d \<in> set (Dashboards dashboards). ID d = dashboardID \<and> ?P d"
    by blast
  have "SearchForDashboardMatching lower \<lparr>Dashboards = filter ?P (Dashboards dashboards)\<rparr>
               project stage service =
             SearchForDashboardMatching lower dashboards project stage service"
    by (simp add: SearchForDashboardMatching_find find_filter_same)
  with ex show ?thesis by blast
qed

theorem SearchForDashboardMatching_only_matching_witness:
  "SearchForDashboardMatching asciiLower
     \<lparr>Dashboards =
        [\<lparr>ID = ''d0'', Name = ''kqg;project=my-project;service=carts'', Owner = ''o''\<rparr>,
         \<lparr>ID = ''d1'',
          Name = ''KQG;Stage=staging;project=my-project;service=CARTS;owner=x'',
          Owner = ''o''\<rparr>]\<rparr>
     ''my-project'' ''staging'' ''carts'' = ''d1'' \<and>
   (\<exists>d \<in> set [\<lparr>ID = ''d0'', Name = ''kqg;project=my-project;service=carts'', Owner = ''o''\<rparr>,
               \<lparr>ID = ''d1'',
                Name = ''KQG;Stage=staging;project=my-project;service=CARTS;owner=x'',
                Owner = ''o''\<rparr>].
      ID d = ''d1'' \<and> matchesConvention asciiLower (Name d) ''my-project'' ''carts'' ''staging'')"
proof -
  let ?ds = "\<lparr>Dashboards =
        [\<lparr>ID = ''d0'', Name = ''kqg;project=my-project;service=carts'', Owner = ''o''\<rparr>,
         \<lparr>ID = ''d1'',
          Name = ''KQG;Stage=staging;project=my-project;service=CARTS;owner=x'',
          Owner = ''o''\<rparr>]\<rparr>"
  have run: "SearchForDashboardMatching asciiLower ?ds ''my-project'' ''staging'' ''carts'' = ''d1''"
    by code_simp
  have ne: "''d1'' \<noteq> ''''" by simp
  from SearchForDashboardMatching_only_matching [OF ne disjI1 [OF run]] run
  show ?thesis by simp
qed

text \<open>
  C2. When no dashboard of the list matches the naming convention for the triple, both
  copies of the locator return the empty string, the signal for not found. The result
  of the locator is a string for every input: there is no error it could return.
\<close>

theorem SearchForDashboardMatching_not_found:
  assumes "\<forall>d \<in> set (Dashboards dashboards).
             \<not> matchesConvention lower (Name d) project service stage"
  shows "SearchForDashboardMatching lower dashboards project stage service = '''' \<and>
         SearchForDashboardMatchingEvent lower dashboards
           \<lparr>Project = project, Stage = stage, Service = service\<rparr> = ''''"
proof -
  from assms have "find (\<lambda>d. matchesConvention lower (Name d) project service stage)
                     (Dashboards dashboards) = None"
    by (simp add: find_None_iff)
  then show ?thesis
    by (simp add: SearchForDashboardMatching_find SearchForDashboardMatchingEvent_find)
qed

theorem SearchForDashboardMatching_not_found_witness:
  "\<not> matchesConvention asciiLower ''KQG;project=my-project;service=carts;stage=staging;owner=x''
       ''my-project'' ''carts'' ''production'' \<and>
   \<not> matchesConvention asciiLower ''project=my-project;service=carts;stage=production''
       ''my-project'' ''carts'' ''production'' \<and>
   SearchForDashboardMatching asciiLower
     \<lparr>Dashboards =
        [\<lparr>ID = ''d1'', Name = ''KQG;project=my-project;service=carts;stage=staging;owner=x'',
          Owner = ''o''\<rparr>,
         \<lparr>ID = ''d2'', Name = ''project=my-project;service=carts;stage=production'',
          Owner = ''o''\<rparr>]\<rparr>
     ''my-project'' ''production'' ''carts'' = ''''"
proof -
  have n1: "\<not> matchesConvention asciiLower
              ''KQG;project=my-project;service=carts;stage=staging;owner=x''
              ''my-project'' ''carts'' ''production''"
    by code_simp
  have n2: "\<not> matchesConvention asciiLower
              ''project=my-project;service=carts;stage=production''
              ''my-project'' ''carts'' ''production''"
    by code_simp
  from n1 n2 have "\<forall>d \<in> set (Dashboards \<lparr>Dashboards =
        [\<lparr>ID = ''d1'', Name = ''KQG;project=my-project;service=carts;stage=staging;owner=x'',
          Owner = ''o''\<rparr>,
         \<lparr>ID = ''d2'', Name = ''project=my-project;service=carts;stage=production'',
          Owner = ''o''\<rparr>]\<rparr>).
      \<not> matchesConvention asciiLower (Name d) ''my-project'' ''carts'' ''production''"
    by simp
  from SearchForDashboardMatching_not_found [OF this] n1 n2 show ?thesis by simp
qed

text \<open>
  C10. When several dashboards match, the identifier returned is the one of the first
  match in list order: for a list that splits into dashboards that do not match, a
  dashboard that matches, and any dashboards after it, both copies of the locator return
  the identifier of that dashboard, whatever comes after it.
\<close>

theorem SearchForDashboardMatching_first_match:
  assumes "Dashboards dashboards = before @ d # after"
    and "\<forall>x \<in> set before. \<not> matchesConvention lower (Name x) project service stage"
    and "matchesConvention lower (Name d) project service stage"
  shows "SearchForDashboardMatching lower dashboards project stage service = ID d \<and>
         SearchForDashboardMatchingEvent lower dashboards
           \<lparr>Project = project, Stage = stage, Service = service\<rparr> = ID d"
proof -
  from find_first_match [of before "\<lambda>d. matchesConvention lower (Name d) project service stage",
      OF assms(2) assms(3)] assms(1)
  have "find (\<lambda>d. matchesConvention lower (Name d) project service stage)
          (Dashboards dashboards) = Some d"
    by simp
  then show ?thesis
    by (simp add: SearchForDashboardMatching_find SearchForDashboardMatchingEvent_find)
qed

theorem SearchForDashboardMatching_first_match_witness:
  "matchesConvention asciiLower ''KQG;project=p;service=s;stage=t'' ''p'' ''s'' ''t'' \<and>
   matchesConvention asciiLower ''kqg;stage=T;service=S;project=P;x=y'' ''p'' ''s'' ''t'' \<and>
   \<not> matchesConvention asciiLower ''KQG;project=p;service=s'' ''p'' ''s'' ''t'' \<and>
   SearchForDashboardMatching asciiLower
     \<lparr>Dashboards =
        [\<lparr>ID = ''a'', Name = ''KQG;project=p;service=s'', Owner = ''o''\<rparr>,
         \<lparr>ID = ''b'', Name = ''KQG;project=p;service=s;stage=t'', Owner = ''o''\<rparr>,
         \<lparr>ID = ''c'', Name = ''kqg;stage=T;service=S;project=P;x=y'', Owner = ''o''\<rparr>]\<rparr>
     ''p'' ''t'' ''s'' = ''b''"
proof -
  have m1: "matchesConvention asciiLower ''KQG;project=p;service=s;stage=t'' ''p'' ''s'' ''t''"
    by code_simp
  have m2: "matchesConvention asciiLower ''kqg;stage=T;service=S;project=P;x=y'' ''p'' ''s'' ''t''"
    by code_simp
  have n: "\<not> matchesConvention asciiLower ''KQG;project=p;service=s'' ''p'' ''s'' ''t''"
    by code_simp
  have parts: "Dashboards \<lparr>Dashboards =
        [\<lparr>ID = ''a'', Name = ''KQG;project=p;service=s'', Owner = ''o''\<rparr>,
         \<lparr>ID = ''b'', Name = ''KQG;project=p;service=s;stage=t'', Owner = ''o''\<rparr>,
         \<lparr>ID = ''c'', Name = ''kqg;stage=T;service=S;project=P;x=y'', Owner = ''o''\<rparr>]\<rparr> =
      [\<lparr>ID = ''a'', Name = ''KQG;project=p;service=s'', Owner = ''o''\<rparr>] @
      \<lparr>ID = ''b'', Name = ''KQG;project=p;service=s;stage=t'', Owner = ''o''\<rparr> #
      [\<lparr>ID = ''c'', Name = ''kqg;stage=T;service=S;project=P;x=y'', Owner = ''o''\<rparr>]"
    by simp
  have "SearchForDashboardMatching asciiLower
     \<lparr>Dashboards =
        [\<lparr>ID = ''a'', Name = ''KQG;project=p;service=s'', Owner = ''o''\<rparr>,
         \<lparr>ID = ''b'', Name = ''KQG;project=p;service=s;stage=t'', Owner = ''o''\<rparr>,
         \<lparr>ID = ''c'', Name = ''kqg;stage=T;service=S;project=P;x=y'', Owner = ''o''\<rparr>]\<rparr>
     ''p'' ''t'' ''s'' = ''b''"
    using SearchForDashboardMatching_first_match [OF parts, of asciiLower "''p''" "''s''" "''t''"]
      m1 n by simp
  with m1 m2 n show ?thesis by blast
qed

section \<open>Properties of the security-problem tile processor\<close>

lemma Process_unfold:
  "Process h p tile dashboardFilter w =
     (case client p
             (''securityProblemSelector=status(OPEN)'' @
              ForProblemSelector h
                (NewManagementZoneFilter h dashboardFilter (ManagementZone (TileFilter tile))))
             (startUnix p) (endUnix p) w of
        (Inl err, w') \<Rightarrow> (None, w')
      | (Inr reply, w') \<Rightarrow>
          (Some \<lparr>sliResult = \<lparr>Metric = ''security_problems'',
                              Value = float64 h (TotalCount reply), Success = True\<rparr>,
                 objective = ParsePassAndWarningWithoutDefaultsFrom h
                               ''sli=security_problems;pass=<=0;key=true'',
                 sliName = ''security_problems'',
                 sliQuery = ''SECPV2;securityProblemSelector=status(OPEN)'' @
                   ForProblemSelector h
                     (NewManagementZoneFilter h dashboardFilter
                        (ManagementZone (TileFilter tile)))\<rparr>, w'))"
  by (simp add: Process_def processProblemSelector_def Let_def split: prod.splits sum.splits)

lemma processTiles_append:
  "processTiles h p (xs @ ys) dashboardFilter w =
     (case processTiles h p xs dashboardFilter w of
        (results, w') \<Rightarrow>
          (case processTiles h p ys dashboardFilter w' of
             (results', w'') \<Rightarrow> (results @ results', w'')))"
  by (induction xs arbitrary: w) (auto split: prod.splits option.splits)

text \<open>
  C3. When the backend answers the query of a security-problem tile with a reply,
  \<^verbatim>\<open>Process\<close> returns one tile result: its indicator is named
  \<^verbatim>\<open>security_problems\<close>, the value is the reply's total count converted to
  \<^verbatim>\<open>float64\<close>, the success flag is true, and the objective is what the parser makes
  of the string \<^verbatim>\<open>sli=security_problems;pass=<=0;key=true\<close>. The name of the tile is not
  read, so this holds for a tile without a threshold specification as for any other.
\<close>

theorem Process_default_indicator:
  assumes "selector = ''status(OPEN)'' @
             ForProblemSelector h
               (NewManagementZoneFilter h dashboardFilter (ManagementZone (TileFilter tile)))"
    and "client p (''securityProblemSelector='' @ selector) (startUnix p) (endUnix p) w =
           (Inr reply, w')"
  shows "\<exists>r. Process h p tile dashboardFilter w = (Some r, w') \<and>
             sliName r = ''security_problems'' \<and>
             Metric (sliResult r) = ''security_problems'' \<and>
             Value (sliResult r) = float64 h (TotalCount reply) \<and>
             Success (sliResult r) = True \<and>
             objective r = ParsePassAndWarningWithoutDefaultsFrom h
                             ''sli=security_problems;pass=<=0;key=true''"
  using assms by (simp add: Process_unfold)

theorem Process_default_indicator_witness:
  "client sampleProcessing
     (''securityProblemSelector='' @ ''status(OPEN),managementZoneIds(7)'')
     (startUnix sampleProcessing) (endUnix sampleProcessing) 0 = (Inr \<lparr>TotalCount = 2\<rparr>, 1) \<and>
   (\<exists>r. Process sampleHelpers sampleProcessing (sampleTile ''7'') ''3'' 0 = (Some r, 1) \<and>
        sliName r = ''security_problems'' \<and>
        Metric (sliResult r) = ''security_problems'' \<and>
        Value (sliResult r) = 2 \<and>
        Success (sliResult r) = True \<and>
        objective r = ''sli=security_problems;pass=<=0;key=true'')"
proof -
  have sel: "''status(OPEN),managementZoneIds(7)'' = ''status(OPEN)'' @
      ForProblemSelector sampleHelpers
        (NewManagementZoneFilter sampleHelpers ''3''
           (ManagementZone (TileFilter (sampleTile ''7''))))"
    by (simp add: sampleHelpers_def sampleTile_def)
  have reply: "client sampleProcessing
      (''securityProblemSelector='' @ ''status(OPEN),managementZoneIds(7)'')
      (startUnix sampleProcessing) (endUnix sampleProcessing) 0 = (Inr \<lparr>TotalCount = 2\<rparr>, 1)"
    by (simp add: sampleProcessing_def)
  from Process_default_indicator [OF sel reply] reply show ?thesis
    by (simp add: sampleHelpers_def)
qed

text \<open>
  C4. For every tile and dashboard filter, with the selector being \<^verbatim>\<open>status(OPEN)\<close>
  followed by the suffix that the merged management zone filter renders: the one call to
  the backend that \<^verbatim>\<open>Process\<close> makes carries exactly this selector (as
  \<^verbatim>\<open>securityProblemSelector=<selector>\<close>), and the query string of every tile result
  is \<^verbatim>\<open>SECPV2;securityProblemSelector=\<close> followed by the selector, so that the
  selector is read back from it by dropping this prefix.
\<close>

theorem Process_selector_and_query:
  assumes "selector = ''status(OPEN)'' @
             ForProblemSelector h
               (NewManagementZoneFilter h dashboardFilter (ManagementZone (TileFilter tile)))"
  shows "snd (Process h p tile dashboardFilter w) =
           snd (client p (''securityProblemSelector='' @ selector) (startUnix p) (endUnix p) w) \<and>
         (\<forall>r. fst (Process h p tile dashboardFilter w) = Some r \<longrightarrow>
            sliQuery r = ''SECPV2;securityProblemSelector='' @ selector \<and>
            drop (length ''SECPV2;securityProblemSelector='') (sliQuery r) = selector)"
  using assms by (auto simp add: Process_unfold split: prod.splits sum.splits)

theorem Process_selector_and_query_witness:
  "snd (Process sampleHelpers sampleProcessing (sampleTile ''7'') ''3'' 0) =
     snd (client sampleProcessing
            (''securityProblemSelector='' @ ''status(OPEN),managementZoneIds(7)'')
            (startUnix sampleProcessing) (endUnix sampleProcessing) 0) \<and>
   (\<exists>r. fst (Process sampleHelpers sampleProcessing (sampleTile ''7'') ''3'' 0) = Some r \<and>
        sliQuery r = ''SECPV2;securityProblemSelector=status(OPEN),managementZoneIds(7)'')"
proof -
  have sel: "''status(OPEN),managementZoneIds(7)'' = ''status(OPEN)'' @
      ForProblemSelector sampleHelpers
        (NewManagementZoneFilter sampleHelpers ''3''
           (ManagementZone (TileFilter (sampleTile ''7''))))"
    by (simp add: sampleHelpers_def sampleTile_def)
  have run: "\<exists>r. fst (Process sampleHelpers sampleProcessing (sampleTile ''7'') ''3'' 0) = Some r"
    by (simp add: Process_unfold sampleHelpers_def sampleProcessing_def sampleTile_def)
  with Process_selector_and_query [OF sel, of sampleProcessing 0] show ?thesis
    by auto
qed

text \<open>
  C5. When the backend answers the query of a security-problem tile with an error,
  \<^verbatim>\<open>Process\<close> returns \<^verbatim>\<open>nil\<close>: there is no tile result, and no error is handed
  to the caller (the result of \<^verbatim>\<open>Process\<close> has no place for one). The call returns
  in the state that the failed backend call has left, and from that state the next tile
  is processed as any tile is: when the backend answers its query, \<^verbatim>\<open>Process\<close>
  returns its result.
\<close>

theorem Process_backend_error:
  assumes "selector = ''status(OPEN)'' @
             ForProblemSelector h
               (NewManagementZoneFilter h dashboardFilter (ManagementZone (TileFilter tile)))"
    and "client p (''securityProblemSelector='' @ selector) (startUnix p) (endUnix p) w =
           (Inl err, w')"
  shows "Process h p tile dashboardFilter w = (None, w') \<and>
         (\<forall>nextTile reply w''.
            client p
              (''securityProblemSelector=status(OPEN)'' @
               ForProblemSelector h
                 (NewManagementZoneFilter h dashboardFilter (ManagementZone (TileFilter nextTile))))
              (startUnix p) (endUnix p) w' = (Inr reply, w'') \<longrightarrow>
            (\<exists>r. Process h p nextTile dashboardFilter w' = (Some r, w'') \<and>
                 sliName r = ''security_problems'' \<and>
                 Value (sliResult r) = float64 h (TotalCount reply)))"
  using assms by (simp add: Process_unfold)

theorem Process_backend_error_witness:
  "client sampleProcessing (''securityProblemSelector='' @ ''status(OPEN),managementZoneIds(3)'')
     (startUnix sampleProcessing) (endUnix sampleProcessing) 1 = (Inl ''HTTP 500'', 2) \<and>
   Process sampleHelpers sampleProcessing (sampleTile '''') ''3'' 1 = (None, 2) \<and>
   (\<exists>r. Process sampleHelpers sampleProcessing (sampleTile ''7'') ''3'' 2 = (Some r, 3) \<and>
        sliName r = ''security_problems'' \<and> Value (sliResult r) = 2)"
proof -
  have sel: "''status(OPEN),managementZoneIds(3)'' = ''status(OPEN)'' @
      ForProblemSelector sampleHelpers
        (NewManagementZoneFilter sampleHelpers ''3''
           (ManagementZone (TileFilter (sampleTile ''''))))"
    by (simp add: sampleHelpers_def sampleTile_def)
  have err: "client sampleProcessing
      (''securityProblemSelector='' @ ''status(OPEN),managementZoneIds(3)'')
      (startUnix sampleProcessing) (endUnix sampleProcessing) 1 = (Inl ''HTTP 500'', 2)"
    by (simp add: sampleProcessing_def)
  have reply: "client sampleProcessing
      (''securityProblemSelector=status(OPEN)'' @
       ForProblemSelector sampleHelpers
         (NewManagementZoneFilter sampleHelpers ''3''
            (ManagementZone (TileFilter (sampleTile ''7'')))))
      (startUnix sampleProcessing) (endUnix sampleProcessing) 2 = (Inr \<lparr>TotalCount = 2\<rparr>, 3)"
    by (simp add: sampleProcessing_def sampleHelpers_def sampleTile_def)
  note fact = Process_backend_error [OF sel err]
  from fact have none: "Process sampleHelpers sampleProcessing (sampleTile '''') ''3'' 1 = (None, 2)"
    by (rule conjunct1)
  from fact reply
  have "\<exists>r. Process sampleHelpers sampleProcessing (sampleTile ''7'') ''3'' 2 = (Some r, 3) \<and>
            sliName r = ''security_problems'' \<and>
            Value (sliResult r) = float64 sampleHelpers (TotalCount \<lparr>TotalCount = 2\<rparr>)"
    by blast
  then have following: "\<exists>r. Process sampleHelpers sampleProcessing (sampleTile ''7'') ''3'' 2 = (Some r, 3) \<and>
            sliName r = ''security_problems'' \<and> Value (sliResult r) = 2"
    by (simp add: sampleHelpers_def)
  from err none following show ?thesis by blast
qed

text \<open>
  The same at the level of the report, for the loop over the tiles as the specification
  describes it: the failed tile adds nothing to the report, and the tiles after it are
  processed, starting from the state the failed call has left.
\<close>

lemma processTiles_skips_failed_tile:
  assumes "selector = ''status(OPEN)'' @
             ForProblemSelector h
               (NewManagementZoneFilter h dashboardFilter (ManagementZone (TileFilter tile)))"
    and "client p (''securityProblemSelector='' @ selector) (startUnix p) (endUnix p) w =
           (Inl err, w')"
    and "processTiles h p before dashboardFilter w0 = (results, w)"
  shows "processTiles h p (before @ tile # after) dashboardFilter w0 =
           (results @ fst (processTiles h p after dashboardFilter w'),
            snd (processTiles h p after dashboardFilter w'))"
proof -
  from assms(1) assms(2) have none: "Process h p tile dashboardFilter w = (None, w')"
    by (simp add: Process_unfold)
  then have "processTiles h p (tile # after) dashboardFilter w =
               processTiles h p after dashboardFilter w'"
    by simp
  with assms(3) none show ?thesis
    by (simp add: processTiles_append split: prod.splits)
qed

lemma processTiles_skips_failed_tile_example:
  "map sliName
     (fst (processTiles sampleHelpers sampleProcessing
             [sampleTile ''7'', sampleTile '''', sampleTile ''7''] ''3'' 0)) =
     [''security_problems'', ''security_problems''] \<and>
   snd (processTiles sampleHelpers sampleProcessing
          [sampleTile ''7'', sampleTile '''', sampleTile ''7''] ''3'' 0) = 3"
  by (simp add: Process_unfold sampleHelpers_def sampleProcessing_def sampleTile_def)

section \<open>Repeated evaluation\<close>

lemma find_map_cong:
  assumes "map f xs = map f ys"
  shows "map_option f (find (\<lambda>x. Q (f x)) xs) = map_option f (find (\<lambda>x. Q (f x)) ys)"
  using assms
proof (induction xs arbitrary: ys)
  case Nil
  then show ?case by simp
next
  case (Cons x xs)
  then obtain y ys' where ys: "ys = y # ys'" "f x = f y" "map f xs = map f ys'"
    by (cases ys) auto
  with Cons.IH [of ys'] show ?case by simp
qed

lemma SearchForDashboardMatching_depends:
  assumes "map (\<lambda>d. (ID d, Name d)) (Dashboards dashboards1) =
           map (\<lambda>d. (ID d, Name d)) (Dashboards dashboards2)"
  shows "SearchForDashboardMatching lower dashboards1 project stage service =
         SearchForDashboardMatching lower dashboards2 project stage service"
proof -
  let ?f = "\<lambda>d. (ID d, Name d)"
  let ?Q = "\<lambda>(i :: string, n). matchesConvention lower n project service stage"
  have eq: "(\<lambda>d. matchesConvention lower (Name d) project service stage) = (\<lambda>d. ?Q (?f d))"
    by (simp add: fun_eq_iff)
  have res: "(case find (\<lambda>d. ?Q (?f d)) ds of None \<Rightarrow> '''' | Some d \<Rightarrow> ID d) =
             (case map_option ?f (find (\<lambda>d. ?Q (?f d)) ds) of None \<Rightarrow> '''' | Some (i, n) \<Rightarrow> i)"
    for ds :: "DashboardEntry list"
    by (simp split: option.splits)
  from find_map_cong [OF assms, of ?Q]
  show ?thesis
    unfolding SearchForDashboardMatching_find eq res by simp
qed

text \<open>
  C9. Two runs give the same results when their inputs are the same and the backend
  gives the same response. The locator reads the identifiers and names of the dashboards
  and nothing of the world, the processor reads the management zone of the tile, the
  dashboard filter and the backend's answer to its one query. So for two runs, in the
  states \<open>w1\<close> and \<open>w2\<close> of the world, on dashboards with the same identifiers and names
  and tiles with the same management zone, with the same answer of the backend: the
  dashboard identifier is the same, and so is the tile result, that is the indicator
  name, value, success flag, objective and query string.
\<close>

theorem evaluation_repeatable:
  assumes "map (\<lambda>d. (ID d, Name d)) (Dashboards dashboards1) =
           map (\<lambda>d. (ID d, Name d)) (Dashboards dashboards2)"
    and "ManagementZone (TileFilter tile1) = ManagementZone (TileFilter tile2)"
    and "selector = ''status(OPEN)'' @
           ForProblemSelector h
             (NewManagementZoneFilter h dashboardFilter (ManagementZone (TileFilter tile1)))"
    and "fst (client p (''securityProblemSelector='' @ selector) (startUnix p) (endUnix p) w1) =
         fst (client p (''securityProblemSelector='' @ selector) (startUnix p) (endUnix p) w2)"
  shows "SearchForDashboardMatching lower dashboards1 project stage service =
           SearchForDashboardMatching lower dashboards2 project stage service \<and>
         fst (Process h p tile1 dashboardFilter w1) = fst (Process h p tile2 dashboardFilter w2)"
proof -
  from assms(2) assms(3) assms(4)
  have "fst (Process h p tile1 dashboardFilter w1) = fst (Process h p tile2 dashboardFilter w2)"
    by (auto simp add: Process_unfold split: prod.splits sum.splits)
  with SearchForDashboardMatching_depends [OF assms(1)] show ?thesis by simp
qed

theorem evaluation_repeatable_witness:
  "fst (client sampleProcessing
          (''securityProblemSelector='' @ ''status(OPEN),managementZoneIds(7)'')
          (startUnix sampleProcessing) (endUnix sampleProcessing) 0) =
   fst (client sampleProcessing
          (''securityProblemSelector='' @ ''status(OPEN),managementZoneIds(7)'')
          (startUnix sampleProcessing) (endUnix sampleProcessing) 1) \<and>
   SearchForDashboardMatching asciiLower
     \<lparr>Dashboards = [\<lparr>ID = ''b'', Name = ''KQG;project=p;service=s;stage=t'', Owner = ''o''\<rparr>]\<rparr>
     ''p'' ''t'' ''s'' =
   SearchForDashboardMatching asciiLower
     \<lparr>Dashboards = [\<lparr>ID = ''b'', Name = ''KQG;project=p;service=s;stage=t'', Owner = ''q''\<rparr>]\<rparr>
     ''p'' ''t'' ''s'' \<and>
   fst (Process sampleHelpers sampleProcessing (sampleTile ''7'') ''3'' 0) =
   fst (Process sampleHelpers sampleProcessing
          \<lparr>Tile.Name = ''Open security problems'', TileFilter = \<lparr>ManagementZone = ''7''\<rparr>\<rparr>
          ''3'' 1) \<and>
   sliName (the (fst (Process sampleHelpers sampleProcessing (sampleTile ''7'') ''3'' 0))) =
     ''security_problems''"
proof -
  have lists: "map (\<lambda>d. (ID d, Name d))
        (Dashboards \<lparr>Dashboards =
           [\<lparr>ID = ''b'', Name = ''KQG;project=p;service=s;stage=t'', Owner = ''o''\<rparr>]\<rparr>) =
      map (\<lambda>d. (ID d, Name d))
        (Dashboards \<lparr>Dashboards =
           [\<lparr>ID = ''b'', Name = ''KQG;project=p;service=s;stage=t'', Owner = ''q''\<rparr>]\<rparr>)"
    by simp
  have zone: "ManagementZone (TileFilter (sampleTile ''7'')) =
      ManagementZone (TileFilter
        \<lparr>Tile.Name = ''Open security problems'', TileFilter = \<lparr>ManagementZone = ''7''\<rparr>\<rparr>)"
    by (simp add: sampleTile_def)
  have sel: "''status(OPEN),managementZoneIds(7)'' = ''status(OPEN)'' @
      ForProblemSelector sampleHelpers
        (NewManagementZoneFilter sampleHelpers ''3''
           (ManagementZone (TileFilter (sampleTile ''7''))))"
    by (simp add: sampleHelpers_def sampleTile_def)
  have same: "fst (client sampleProcessing
          (''securityProblemSelector='' @ ''status(OPEN),managementZoneIds(7)'')
          (startUnix sampleProcessing) (endUnix sampleProcessing) 0) =
      fst (client sampleProcessing
          (''securityProblemSelector='' @ ''status(OPEN),managementZoneIds(7)'')
          (startUnix sampleProcessing) (endUnix sampleProcessing) 1)"
    by (simp add: sampleProcessing_def)
  have name: "sliName (the (fst (Process sampleHelpers sampleProcessing (sampleTile ''7'') ''3'' 0))) =
     ''security_problems''"
    by (simp add: Process_unfold sampleHelpers_def sampleProcessing_def sampleTile_def)
  from evaluation_repeatable [OF lists zone sel same] same name
  show ?thesis by simp
qed

section \<open>Properties of the resource lookup\<close>

lemma getResourceByFunc_not_found:
  assumes "getResourceByFunc resFunc (\<lambda>_. ResourceNotFoundError e) rrf (\<lambda>_. ResourceEmptyError e) w =
             (Inl err, w')"
    and "\<And>msg. rrf msg = ResourceRetrievalFailedError e msg"
  shows "err \<noteq> Api a" and "errorsAsResourceNotFound err \<Longrightarrow> err = ResourceNotFoundError e"
  using assms
  by (auto simp add: getResourceByFunc_def
      split: prod.splits sum.splits apiError.splits if_splits)

lemma GetProjectResource_error:
  assumes "GetProjectResource rc project resourceURI w = (Inl err, w')"
  shows "err \<noteq> Api a"
    and "errorsAsResourceNotFound err \<Longrightarrow>
           err = ResourceNotFoundError (ResourceError resourceURI project '''' '''')"
  using assms unfolding GetProjectResource_def
  by (rule getResourceByFunc_not_found, simp)+

lemma projectLevel_chain:
  assumes "project \<noteq> ''''"
  shows "(case projectLevel rc project resourceURI w of
            (Some returned, w') \<Rightarrow> (returned, w')
          | (None, w') \<Rightarrow> (Inl (ResourceNotFoundError
                                   (ResourceError resourceURI project stage service)), w')) =
         chainOfResponsibility [GetProjectResource rc project resourceURI]
           (ResourceNotFoundError (ResourceError resourceURI project '''' '''')) w"
proof (cases "GetProjectResource rc project resourceURI w")
  case (Pair res w')
  show ?thesis
  proof (cases res)
    case (Inl err)
    with Pair GetProjectResource_error [of rc project resourceURI w err w']
    show ?thesis using assms by (auto simp add: projectLevel_def)
  next
    case (Inr content)
    with Pair show ?thesis using assms by (simp add: projectLevel_def)
  qed
qed

lemma chainOfResponsibility_not_found:
  "errorsAsResourceNotFound notFound \<Longrightarrow>
   (case fst (chainOfResponsibility levels notFound w) of
      Inl err \<Rightarrow> errorsAsResourceNotFound err | Inr content \<Rightarrow> False) =
   allNotFound levels w"
  by (induction levels arbitrary: w) (auto split: prod.splits sum.splits)

lemma block_chain:
  "(case (case level w of
            (Inl err, w') \<Rightarrow>
              (if errorsAsResourceNotFound err then (None, w') else (Some (Inl err), w'))
          | (Inr content, w') \<Rightarrow> (Some (Inr content), w')) of
      (Some returned, w1) \<Rightarrow> (returned, w1)
    | (None, w1) \<Rightarrow> chainOfResponsibility levels notFound w1) =
   chainOfResponsibility (level # levels) notFound w"
  by (cases "level w") (auto split: sum.splits)

lemma stageLevel_chain:
  "(case stageLevel rc project stage resourceURI w of
      (Some returned, w1) \<Rightarrow> (returned, w1)
    | (None, w1) \<Rightarrow> chainOfResponsibility levels notFound w1) =
   chainOfResponsibility
     ((if project \<noteq> '''' \<and> stage \<noteq> ''''
       then [GetStageResource rc project stage resourceURI] else []) @ levels) notFound w"
  unfolding stageLevel_def by (auto simp add: block_chain)

lemma serviceLevel_chain:
  "(case serviceLevel rc project stage service resourceURI w of
      (Some returned, w1) \<Rightarrow> (returned, w1)
    | (None, w1) \<Rightarrow> chainOfResponsibility levels notFound w1) =
   chainOfResponsibility
     ((if project \<noteq> '''' \<and> stage \<noteq> '''' \<and> service \<noteq> ''''
       then [GetServiceResource rc project stage service resourceURI] else []) @ levels)
     notFound w"
  unfolding serviceLevel_def by (auto simp add: block_chain)

lemma GetResource_chain:
  "GetResource rc project stage service resourceURI w =
     chainOfResponsibility (applicableLevels rc project stage service resourceURI)
       (ResourceNotFoundError
          (if project = '''' then ResourceError resourceURI project stage service
           else ResourceError resourceURI project '''' '''')) w"
proof (cases "project = ''''")
  case True
  then show ?thesis
    by (simp add: GetResource_def serviceLevel_def stageLevel_def projectLevel_def
        applicableLevels_def)
next
  case False
  show ?thesis
    unfolding GetResource_def projectLevel_chain [OF False] stageLevel_chain
      serviceLevel_chain applicableLevels_def
    using False by simp
qed

text \<open>
  C8. \<^verbatim>\<open>GetResource\<close> is the chain of responsibility over the levels that apply, in
  the order service, stage, project: a level that reports the typed not-found outcome
  hands over to the next one, any other error of a level is returned at once, and so is
  the first content found (a level never reports empty content as found). The result is
  a \<^verbatim>\<open>ResourceNotFoundError\<close> exactly when all levels that apply, asked in turn,
  report not-found. That error names the project alone when a project is given (it is
  the one the project level reports), and all of project, stage and service otherwise.
\<close>

theorem GetResource_chain_of_responsibility:
  "GetResource rc project stage service resourceURI w =
     chainOfResponsibility (applicableLevels rc project stage service resourceURI)
       (ResourceNotFoundError
          (if project = '''' then ResourceError resourceURI project stage service
           else ResourceError resourceURI project '''' '''')) w \<and>
   (case fst (GetResource rc project stage service resourceURI w) of
      Inl err \<Rightarrow> errorsAsResourceNotFound err
    | Inr content \<Rightarrow> False) =
   allNotFound (applicableLevels rc project stage service resourceURI) w"
  by (simp only: GetResource_chain chainOfResponsibility_not_found
      errorsAsResourceNotFound.simps simp_thms)

theorem GetResource_chain_of_responsibility_witness:
  "GetResource
     (sampleResourceClient (Inl ApiResourceNotFoundError)
        (Inr \<lparr>ResourceContent = ''stage content''\<rparr>) (Inr \<lparr>ResourceContent = ''project content''\<rparr>))
     ''sockshop'' ''staging'' ''carts'' ''dynatrace/sli.yaml'' [] =
     (Inr ''stage content'', [''service'', ''stage'']) \<and>
   GetResource
     (sampleResourceClient (Inl ApiResourceNotFoundError) (Inl (ApiError ''HTTP 500''))
        (Inr \<lparr>ResourceContent = ''project content''\<rparr>))
     ''sockshop'' ''staging'' ''carts'' ''dynatrace/sli.yaml'' [] =
     (Inl (ResourceRetrievalFailedError
             (ResourceError ''dynatrace/sli.yaml'' ''sockshop'' ''staging'' '''') ''HTTP 500''),
      [''service'', ''stage'']) \<and>
   GetResource
     (sampleResourceClient (Inl ApiResourceNotFoundError) (Inl ApiResourceNotFoundError)
        (Inl ApiResourceNotFoundError))
     ''sockshop'' ''staging'' ''carts'' ''dynatrace/sli.yaml'' [] =
     (Inl (ResourceNotFoundError (ResourceError ''dynatrace/sli.yaml'' ''sockshop'' '''' '''')),
      [''service'', ''stage'', ''project'']) \<and>
   allNotFound
     (applicableLevels
        (sampleResourceClient (Inl ApiResourceNotFoundError) (Inl ApiResourceNotFoundError)
           (Inl ApiResourceNotFoundError))
        ''sockshop'' ''staging'' ''carts'' ''dynatrace/sli.yaml'') []"
proof -
  let ?found = "sampleResourceClient (Inl ApiResourceNotFoundError)
        (Inr \<lparr>ResourceContent = ''stage content''\<rparr>) (Inr \<lparr>ResourceContent = ''project content''\<rparr>)"
  let ?failed = "sampleResourceClient (Inl ApiResourceNotFoundError) (Inl (ApiError ''HTTP 500''))
        (Inr \<lparr>ResourceContent = ''project content''\<rparr>)"
  let ?none = "sampleResourceClient (Inl ApiResourceNotFoundError) (Inl ApiResourceNotFoundError)
        (Inl ApiResourceNotFoundError)"
  have c1: "chainOfResponsibility
      (applicableLevels ?found ''sockshop'' ''staging'' ''carts'' ''dynatrace/sli.yaml'')
      (ResourceNotFoundError (ResourceError ''dynatrace/sli.yaml'' ''sockshop'' '''' '''')) [] =
      (Inr ''stage content'', [''service'', ''stage''])"
    by (simp add: applicableLevels_def sampleResourceClient_def GetServiceResource_def
        GetStageResource_def GetProjectResource_def getResourceByFunc_def)
  have c2: "chainOfResponsibility
      (applicableLevels ?failed ''sockshop'' ''staging'' ''carts'' ''dynatrace/sli.yaml'')
      (ResourceNotFoundError (ResourceError ''dynatrace/sli.yaml'' ''sockshop'' '''' '''')) [] =
      (Inl (ResourceRetrievalFailedError
             (ResourceError ''dynatrace/sli.yaml'' ''sockshop'' ''staging'' '''') ''HTTP 500''),
      [''service'', ''stage''])"
    by (simp add: applicableLevels_def sampleResourceClient_def GetServiceResource_def
        GetStageResource_def GetProjectResource_def getResourceByFunc_def)
  have c3: "chainOfResponsibility
      (applicableLevels ?none ''sockshop'' ''staging'' ''carts'' ''dynatrace/sli.yaml'')
      (ResourceNotFoundError (ResourceError ''dynatrace/sli.yaml'' ''sockshop'' '''' '''')) [] =
      (Inl (ResourceNotFoundError (ResourceError ''dynatrace/sli.yaml'' ''sockshop'' '''' '''')),
      [''service'', ''stage'', ''project''])"
    by (simp add: applicableLevels_def sampleResourceClient_def GetServiceResource_def
        GetStageResource_def GetProjectResource_def getResourceByFunc_def)
  note found = GetResource_chain_of_responsibility
         [of ?found "''sockshop''" "''staging''" "''carts''" "''dynatrace/sli.yaml''" "[]"]
  note failed = GetResource_chain_of_responsibility
         [of ?failed "''sockshop''" "''staging''" "''carts''" "''dynatrace/sli.yaml''" "[]"]
  note none = GetResource_chain_of_responsibility
         [of ?none "''sockshop''" "''staging''" "''carts''" "''dynatrace/sli.yaml''" "[]"]
  have g1: "GetResource ?found ''sockshop'' ''staging'' ''carts'' ''dynatrace/sli.yaml'' [] =
      (Inr ''stage content'', [''service'', ''stage''])"
    using found c1 by simp
  have g2: "GetResource ?failed ''sockshop'' ''staging'' ''carts'' ''dynatrace/sli.yaml'' [] =
      (Inl (ResourceRetrievalFailedError
             (ResourceError ''dynatrace/sli.yaml'' ''sockshop'' ''staging'' '''') ''HTTP 500''),
      [''service'', ''stage''])"
    using failed c2 by simp
  have g3: "GetResource ?none ''sockshop'' ''staging'' ''carts'' ''dynatrace/sli.yaml'' [] =
      (Inl (ResourceNotFoundError (ResourceError ''dynatrace/sli.yaml'' ''sockshop'' '''' '''')),
      [''service'', ''stage'', ''project''])"
    using none c3 by simp
  from none have "(case fst (GetResource ?none ''sockshop'' ''staging'' ''carts''
                              ''dynatrace/sli.yaml'' []) of
                     Inl err \<Rightarrow> errorsAsResourceNotFound err | Inr content \<Rightarrow> False) =
      allNotFound (applicableLevels ?none ''sockshop'' ''staging'' ''carts''
                     ''dynatrace/sli.yaml'') []"
    by (rule conjunct2)
  then have a3: "allNotFound (applicableLevels ?none ''sockshop'' ''staging'' ''carts''
                     ''dynatrace/sli.yaml'') []"
    by (simp add: g3)
  from g1 g2 g3 a3 show ?thesis by blast
qed

section \<open>Properties of the paginated retrieval\<close>

declare followCursor.simps [simp del]

lemma followCursor_sent:
  "\<exists>new. fst (snd (followCursor fuel backend totalCount cursor acc sent srv)) = sent @ new \<and>
         cursorRequestsOnly backend cursor new srv"
proof (induction fuel backend totalCount cursor acc sent srv rule: followCursor.induct)
  case (1 fuel backend totalCount cursor acc sent srv)
  show ?case
  proof (cases "cursor = ''''")
    case True
    then show ?thesis by (subst followCursor.simps) simp
  next
    case False
    note cursor = this
    show ?thesis
    proof (cases fuel)
      case 0
      with cursor show ?thesis by (subst followCursor.simps) simp
    next
      case (Suc n)
      show ?thesis
      proof (cases "backend (nextPageRequest cursor) srv")
        case (Pair res srv')
        show ?thesis
        proof (cases res)
          case (Inl err)
          with cursor Suc Pair
          have "fst (snd (followCursor fuel backend totalCount cursor acc sent srv)) =
                  sent @ [nextPageRequest cursor]"
            by (subst followCursor.simps) simp
          moreover from cursor Pair Inl
          have "cursorRequestsOnly backend cursor [nextPageRequest cursor] srv"
            by (simp add: nextPageRequest_def)
          ultimately show ?thesis by blast
        next
          case (Inr page)
          from "1.IH" [OF cursor Suc Pair [symmetric] Inr]
          obtain new where new:
            "fst (snd (followCursor n backend totalCount (NextPageKey page) (acc @ Entities page)
                         (sent @ [nextPageRequest cursor]) srv')) =
               (sent @ [nextPageRequest cursor]) @ new"
            "cursorRequestsOnly backend (NextPageKey page) new srv'"
            by blast
          from cursor Suc Pair Inr new(1)
          have "fst (snd (followCursor fuel backend totalCount cursor acc sent srv)) =
                  sent @ (nextPageRequest cursor # new)"
            by (subst followCursor.simps) simp
          moreover from cursor Pair Inr new(2)
          have "cursorRequestsOnly backend cursor (nextPageRequest cursor # new) srv"
            by (simp add: nextPageRequest_def)
          ultimately show ?thesis by blast
        qed
      qed
    qed
  qed
qed

lemma cursorRequestsOnly_no_selector:
  "cursorRequestsOnly backend cursor new srv \<Longrightarrow> request \<in> set new \<Longrightarrow>
   nextPageKey request \<noteq> '''' \<and> entitySelector request = '''' \<and> timeFrom request = '''' \<and>
   timeTo request = '''' \<and> fieldsParameter request = ''''"
proof (induction new arbitrary: cursor srv)
  case Nil
  then show ?case by simp
next
  case (Cons r new)
  show ?case
  proof (cases "request = r")
    case True
    with Cons.prems(1) show ?thesis by simp
  next
    case False
    with Cons.prems(2) have mem: "request \<in> set new" by simp
    show ?thesis
    proof (cases "backend r srv")
      case (Pair res srv')
      show ?thesis
      proof (cases res)
        case (Inl err)
        with Cons.prems(1) Pair mem show ?thesis by simp
      next
        case (Inr page)
        with Cons.prems(1) Pair
        have "cursorRequestsOnly backend (NextPageKey page) new srv'" by simp
        from Cons.IH [OF this mem] show ?thesis .
      qed
    qed
  qed
qed

lemma listAllEntities_followsProtocol:
  "followsProtocol backend selector tFrom tTo fieldList
     (fst (snd (listAllEntities fuel backend selector tFrom tTo fieldList srv))) srv"
proof (cases fuel)
  case 0
  then show ?thesis by (simp add: listAllEntities_def followsProtocol_def)
next
  case (Suc n)
  show ?thesis
  proof (cases "backend (firstPageRequest selector tFrom tTo fieldList) srv")
    case (Pair res srv')
    show ?thesis
    proof (cases res)
      case (Inl err)
      with Suc Pair show ?thesis
        by (simp add: listAllEntities_def followsProtocol_def firstPageRequest_def)
    next
      case (Inr page)
      from followCursor_sent [of n backend "EntitiesResponse.TotalCount page" "NextPageKey page" "Entities page"
          "[firstPageRequest selector tFrom tTo fieldList]" srv']
      obtain new where new:
        "fst (snd (followCursor n backend (EntitiesResponse.TotalCount page) (NextPageKey page) (Entities page)
                     [firstPageRequest selector tFrom tTo fieldList] srv')) =
           [firstPageRequest selector tFrom tTo fieldList] @ new"
        "cursorRequestsOnly backend (NextPageKey page) new srv'"
        by blast
      with Suc Pair Inr show ?thesis
        by (simp add: listAllEntities_def followsProtocol_def firstPageRequest_def)
    qed
  qed
qed

text \<open>
  C6. In every accumulation, for every backend and however far it gets: the first
  request carries the full selector, time range and field parameters and an empty
  cursor; every request after it is issued only while the page before had a non-empty
  \<^verbatim>\<open>nextPageKey\<close>, and carries that key and nothing else. So no request carries
  \<^verbatim>\<open>entitySelector\<close> or \<^verbatim>\<open>fields\<close> (or a time range) together with a non-empty
  \<^verbatim>\<open>nextPageKey\<close>.
\<close>

theorem listAllEntities_cursor_only:
  assumes "listAllEntities fuel backend selector tFrom tTo fieldList srv = (result, sent, srv')"
  shows "followsProtocol backend selector tFrom tTo fieldList sent srv \<and>
         (\<forall>request \<in> set sent.
            nextPageKey request \<noteq> '''' \<longrightarrow>
            entitySelector request = '''' \<and> fieldsParameter request = '''' \<and>
            timeFrom request = '''' \<and> timeTo request = '''')"
proof -
  from listAllEntities_followsProtocol [of backend selector tFrom tTo fieldList fuel srv] assms
  have protocol: "followsProtocol backend selector tFrom tTo fieldList sent srv"
    by simp
  have "entitySelector request = '''' \<and> fieldsParameter request = '''' \<and>
        timeFrom request = '''' \<and> timeTo request = ''''"
    if mem: "request \<in> set sent" and key: "nextPageKey request \<noteq> ''''" for request
  proof (cases sent)
    case Nil
    with mem show ?thesis by simp
  next
    case (Cons first later)
    with protocol have first: "nextPageKey first = ''''"
      and rest: "case backend first srv of
                   (Inl err, s) \<Rightarrow> later = []
                 | (Inr page, s) \<Rightarrow> cursorRequestsOnly backend (NextPageKey page) later s"
      by (simp_all add: followsProtocol_def)
    from mem key first Cons have later: "request \<in> set later" by auto
    show ?thesis
    proof (cases "backend first srv")
      case (Pair res s)
      show ?thesis
      proof (cases res)
        case (Inl err)
        with rest Pair later show ?thesis by simp
      next
        case (Inr page)
        with rest Pair have "cursorRequestsOnly backend (NextPageKey page) later s" by simp
        from cursorRequestsOnly_no_selector [OF this later] show ?thesis by simp
      qed
    qed
  qed
  with protocol show ?thesis by blast
qed

theorem listAllEntities_cursor_only_witness:
  "listAllEntities 5 dtMockServer ''type(SERVICE)'' ''now-1h'' ''now'' ''+tags'' freshMockServer =
     (Some (Inr (Entities firstDTResponse @ Entities secondDTResponse)),
      [firstPageRequest ''type(SERVICE)'' ''now-1h'' ''now'' ''+tags'',
       nextPageRequest ''next-page-key''],
      \<lparr>isFirstRequest = False, testErrors = []\<rparr>) \<and>
   followsProtocol dtMockServer ''type(SERVICE)'' ''now-1h'' ''now'' ''+tags''
     [firstPageRequest ''type(SERVICE)'' ''now-1h'' ''now'' ''+tags'',
      nextPageRequest ''next-page-key''] freshMockServer \<and>
   nextPageKey (nextPageRequest ''next-page-key'') = ''next-page-key'' \<and>
   entitySelector (nextPageRequest ''next-page-key'') = '''' \<and>
   fieldsParameter (nextPageRequest ''next-page-key'') = ''''"
proof -
  have run: "listAllEntities 5 dtMockServer ''type(SERVICE)'' ''now-1h'' ''now'' ''+tags''
      freshMockServer =
     (Some (Inr (Entities firstDTResponse @ Entities secondDTResponse)),
      [firstPageRequest ''type(SERVICE)'' ''now-1h'' ''now'' ''+tags'',
       nextPageRequest ''next-page-key''],
      \<lparr>isFirstRequest = False, testErrors = []\<rparr>)"
    by code_simp
  from listAllEntities_cursor_only [OF run] run show ?thesis
    by (simp add: nextPageRequest_def)
qed

lemma followCursor_total:
  "fst (followCursor fuel backend totalCount cursor acc sent srv) = Some (Inr entities) \<Longrightarrow>
   int (length entities) = totalCount"
proof (induction fuel backend totalCount cursor acc sent srv rule: followCursor.induct)
  case (1 fuel backend totalCount cursor acc sent srv)
  show ?case
  proof (cases "cursor = ''''")
    case True
    with "1.prems" show ?thesis
      by (subst (asm) followCursor.simps) (simp add: reconcile_def split: if_splits)
  next
    case False
    note cursor = this
    show ?thesis
    proof (cases fuel)
      case 0
      with cursor "1.prems" show ?thesis by (subst (asm) followCursor.simps) simp
    next
      case (Suc n)
      show ?thesis
      proof (cases "backend (nextPageRequest cursor) srv")
        case (Pair res s)
        show ?thesis
        proof (cases res)
          case (Inl err)
          with cursor Suc Pair "1.prems" show ?thesis
            by (subst (asm) followCursor.simps) simp
        next
          case (Inr page)
          with cursor Suc Pair "1.prems"
          have "fst (followCursor n backend totalCount (NextPageKey page) (acc @ Entities page)
                       (sent @ [nextPageRequest cursor]) s) = Some (Inr entities)"
            by (subst (asm) followCursor.simps) simp
          from "1.IH" [OF cursor Suc Pair [symmetric] Inr this] show ?thesis .
        qed
      qed
    qed
  qed
qed

text \<open>
  C7. For a backend whose first page has a non-empty \<^verbatim>\<open>nextPageKey\<close>, reports
  \<^verbatim>\<open>TotalCount\<close> 3 and holds 2 entities, and whose second page holds 1 entity and has
  an empty \<^verbatim>\<open>nextPageKey\<close>: with fuel for two requests or more the client returns,
  having issued exactly two requests (the first-page request and the cursor request),
  with the 3 entities of the two pages in page order, as many as the first page's
  \<^verbatim>\<open>TotalCount\<close>. And for every backend and every run: entities are returned only
  when their number is the first page's \<^verbatim>\<open>TotalCount\<close>, and a run that reaches the
  last page with another number ends in the protocol error.
\<close>

theorem listAllEntities_two_pages:
  assumes "2 \<le> fuel"
    and "backend (firstPageRequest selector tFrom tTo fieldList) srv = (Inr page1, srv1)"
    and "EntitiesResponse.TotalCount page1 = 3"
    and "length (Entities page1) = 2"
    and "NextPageKey page1 \<noteq> ''''"
    and "backend (nextPageRequest (NextPageKey page1)) srv1 = (Inr page2, srv2)"
    and "length (Entities page2) = 1"
    and "NextPageKey page2 = ''''"
  shows "listAllEntities fuel backend selector tFrom tTo fieldList srv =
           (Some (Inr (Entities page1 @ Entities page2)),
            [firstPageRequest selector tFrom tTo fieldList, nextPageRequest (NextPageKey page1)],
            srv2) \<and>
         int (length (Entities page1 @ Entities page2)) = EntitiesResponse.TotalCount page1 \<and>
         (\<forall>fuel' backend' srv' entities.
            fst (listAllEntities fuel' backend' selector tFrom tTo fieldList srv') =
              Some (Inr entities) \<longrightarrow>
            (\<exists>page s. backend' (firstPageRequest selector tFrom tTo fieldList) srv' =
                        (Inr page, s) \<and>
                      int (length entities) = EntitiesResponse.TotalCount page)) \<and>
         (\<forall>totalCount' entities sent s.
            int (length entities) \<noteq> totalCount' \<longrightarrow>
            fst (followCursor fuel backend totalCount' '''' entities sent s) =
              Some (Inl PaginationProtocolError))"
proof -
  from assms(1) obtain n where fuel: "fuel = Suc (Suc n)"
    by (metis Suc_le_D numeral_2_eq_2 Suc_le_mono)
  have last: "followCursor n backend (EntitiesResponse.TotalCount page1) (NextPageKey page2)
                (Entities page1 @ Entities page2)
                ([firstPageRequest selector tFrom tTo fieldList] @
                 [nextPageRequest (NextPageKey page1)]) srv2 =
              (Some (Inr (Entities page1 @ Entities page2)),
               [firstPageRequest selector tFrom tTo fieldList,
                nextPageRequest (NextPageKey page1)], srv2)"
    using assms(3) assms(4) assms(7) assms(8)
    by (subst followCursor.simps) (simp add: reconcile_def)
  have "followCursor (Suc n) backend (EntitiesResponse.TotalCount page1) (NextPageKey page1)
          (Entities page1) [firstPageRequest selector tFrom tTo fieldList] srv1 =
        (Some (Inr (Entities page1 @ Entities page2)),
         [firstPageRequest selector tFrom tTo fieldList,
          nextPageRequest (NextPageKey page1)], srv2)"
    using assms(5) assms(6) last
    by (subst followCursor.simps) simp
  with fuel assms(2)
  have run: "listAllEntities fuel backend selector tFrom tTo fieldList srv =
           (Some (Inr (Entities page1 @ Entities page2)),
            [firstPageRequest selector tFrom tTo fieldList, nextPageRequest (NextPageKey page1)],
            srv2)"
    by (simp add: listAllEntities_def)
  have count: "int (length (Entities page1 @ Entities page2)) = EntitiesResponse.TotalCount page1"
    using assms(3) assms(4) assms(7) by simp
  have general: "\<exists>page s. backend' (firstPageRequest selector tFrom tTo fieldList) srv' =
                        (Inr page, s) \<and>
                      int (length entities) = EntitiesResponse.TotalCount page"
    if "fst (listAllEntities fuel' backend' selector tFrom tTo fieldList srv') =
          Some (Inr entities)"
    for fuel' backend' srv' entities
  proof (cases fuel')
    case 0
    with that show ?thesis by (simp add: listAllEntities_def)
  next
    case (Suc m)
    show ?thesis
    proof (cases "backend' (firstPageRequest selector tFrom tTo fieldList) srv'")
      case (Pair res s)
      show ?thesis
      proof (cases res)
        case (Inl err)
        with Suc Pair that show ?thesis by (simp add: listAllEntities_def)
      next
        case (Inr page)
        with Suc Pair that
        have "fst (followCursor m backend' (EntitiesResponse.TotalCount page) (NextPageKey page)
                     (Entities page) [firstPageRequest selector tFrom tTo fieldList] s) =
                Some (Inr entities)"
          by (simp add: listAllEntities_def)
        from followCursor_total [OF this] Pair Inr show ?thesis by simp
      qed
    qed
  qed
  have mismatch: "fst (followCursor fuel backend totalCount' '''' entities sent s) =
              Some (Inl PaginationProtocolError)"
    if "int (length entities) \<noteq> totalCount'"
    for totalCount' entities sent s
    using that by (subst followCursor.simps) (simp add: reconcile_def)
  from run count general mismatch show ?thesis by blast
qed

theorem listAllEntities_two_pages_witness:
  "dtMockServer (firstPageRequest ''type(SERVICE)'' ''now-1h'' ''now'' ''+tags'') freshMockServer =
     (Inr firstDTResponse, \<lparr>isFirstRequest = False, testErrors = []\<rparr>) \<and>
   dtMockServer (nextPageRequest (NextPageKey firstDTResponse))
     \<lparr>isFirstRequest = False, testErrors = []\<rparr> =
     (Inr secondDTResponse, \<lparr>isFirstRequest = False, testErrors = []\<rparr>) \<and>
   listAllEntities 2 dtMockServer ''type(SERVICE)'' ''now-1h'' ''now'' ''+tags'' freshMockServer =
     (Some (Inr (Entities firstDTResponse @ Entities secondDTResponse)),
      [firstPageRequest ''type(SERVICE)'' ''now-1h'' ''now'' ''+tags'',
       nextPageRequest (NextPageKey firstDTResponse)],
      \<lparr>isFirstRequest = False, testErrors = []\<rparr>) \<and>
   map EntityID (Entities firstDTResponse @ Entities secondDTResponse) = [''1'', ''1-2'', ''2''] \<and>
   int (length (Entities firstDTResponse @ Entities secondDTResponse)) =
     EntitiesResponse.TotalCount firstDTResponse"
proof -
  have fuel: "(2::nat) \<le> 2" by simp
  have p1: "dtMockServer (firstPageRequest ''type(SERVICE)'' ''now-1h'' ''now'' ''+tags'')
      freshMockServer = (Inr firstDTResponse, \<lparr>isFirstRequest = False, testErrors = []\<rparr>)"
    by (simp add: dtMockServer_def firstPageRequest_def freshMockServer_def)
  have t1: "EntitiesResponse.TotalCount firstDTResponse = 3"
    by (simp add: firstDTResponse_def)
  have l1: "length (Entities firstDTResponse) = 2"
    by (simp add: firstDTResponse_def)
  have k1: "NextPageKey firstDTResponse \<noteq> ''''"
    by (simp add: firstDTResponse_def)
  have p2: "dtMockServer (nextPageRequest (NextPageKey firstDTResponse))
      \<lparr>isFirstRequest = False, testErrors = []\<rparr> =
      (Inr secondDTResponse, \<lparr>isFirstRequest = False, testErrors = []\<rparr>)"
    by (simp add: dtMockServer_def nextPageRequest_def)
  have l2: "length (Entities secondDTResponse) = 1"
    by (simp add: secondDTResponse_def)
  have k2: "NextPageKey secondDTResponse = ''''"
    by (simp add: secondDTResponse_def)
  have ids: "map EntityID (Entities firstDTResponse @ Entities secondDTResponse) =
      [''1'', ''1-2'', ''2'']"
    by (simp add: firstDTResponse_def secondDTResponse_def)
  from listAllEntities_two_pages [OF fuel p1 t1 l1 k1 p2 l2 k2] p1 p2 ids
  show ?thesis by blast
qed

end
